theory Spec2Isabelle
  imports Complex_Main "HOL-Library.Sublist"
begin

section \<open>Figure composition for the light field benchmark (paper\_cvprw\_2017.py)\<close>

text \<open>
  The module draws figures by calling \<open>matplotlib.pyplot\<close> and the toolkit's \<open>plotting\<close>,
  \<open>misc\<close>, \<open>settings\<close> and metric modules. The embedding keeps every function of the
  module as a HOL function that returns the sequence of calls it makes to these
  collaborators (its trace) together with its outcome: a Python exception, or the value
  returned. Python integers are \<open>int\<close>, floats are \<open>real\<close> (exact arithmetic), arrays
  are lists of rows. The collaborators themselves are parameters of the model.
\<close>

subsection \<open>Python values\<close>

datatype exn =
    IndexError
  | UnboundLocalError
  | ZeroDivisionError
  | ValueError
  | Raised string

type_synonym 'a ndarray = "'a list list"

type_synonym rgb = "real \<times> real \<times> real"

text \<open>The state of numpy's global random generator: the draws still to come.\<close>

type_synonym rng = "nat list"

definition shape :: "'a ndarray \<Rightarrow> nat \<times> nat" where
  "shape a = (length a, (case a of [] \<Rightarrow> 0 | r # _ \<Rightarrow> length r))"

definition is_rect :: "'a ndarray \<Rightarrow> bool" where
  "is_rect a = list_all (\<lambda>r. length r = snd (shape a)) a"

text \<open>\<open>xs[lo:hi]\<close>: a negative bound counts from the end, and both bounds are clamped.\<close>

definition slice_bound :: "int \<Rightarrow> int \<Rightarrow> nat" where
  "slice_bound n i = (let j = (if i < 0 then i + n else i) in
     if j < 0 then 0 else if j > n then nat n else nat j)"

definition py_slice :: "'a list \<Rightarrow> int \<Rightarrow> int \<Rightarrow> 'a list" where
  "py_slice xs lo hi = (let n = int (length xs); a = slice_bound n lo; b = slice_bound n hi in
     take (b - a) (drop a xs))"

text \<open>\<open>a[y0:y1, x0:x1]\<close> on an array with at least two axes.\<close>

definition slice2 :: "'a ndarray \<Rightarrow> int \<Rightarrow> int \<Rightarrow> int \<Rightarrow> int \<Rightarrow> 'a ndarray" where
  "slice2 a y0 y1 x0 x1 = map (\<lambda>row. py_slice row x0 x1) (py_slice a y0 y1)"

text \<open>
  Element-wise binary operators of numpy on two-dimensional arrays, with broadcasting:
  two axes are compatible when their lengths agree or one of them is 1; otherwise the
  operator raises \<open>ValueError\<close>.
\<close>

definition bcast_ok :: "nat \<Rightarrow> nat \<Rightarrow> bool" where
  "bcast_ok m n = (m = n \<or> m = 1 \<or> n = 1)"

definition bcast_len :: "nat \<Rightarrow> nat \<Rightarrow> nat" where
  "bcast_len m n = (if m = 1 then n else m)"

definition bcast_ix :: "nat \<Rightarrow> nat \<Rightarrow> nat" where
  "bcast_ix m i = (if m = 1 then 0 else i)"

definition np_binop :: "('a \<Rightarrow> 'b \<Rightarrow> 'c) \<Rightarrow> 'a ndarray \<Rightarrow> 'b ndarray \<Rightarrow> exn + 'c ndarray" where
  "np_binop f a b = (case (shape a, shape b) of ((h1, w1), (h2, w2)) \<Rightarrow>
     if bcast_ok h1 h2 \<and> bcast_ok w1 w2
     then Inr (map (\<lambda>i. map (\<lambda>j. f (a ! bcast_ix h1 i ! bcast_ix w1 j)
                                     (b ! bcast_ix h2 i ! bcast_ix w2 j))
                              [0..<bcast_len w1 w2])
                   [0..<bcast_len h1 h2])
     else Inl ValueError)"

definition np_sub :: "real ndarray \<Rightarrow> real ndarray \<Rightarrow> exn + real ndarray" where
  "np_sub = np_binop (\<lambda>x y. x - y)"

definition np_abs :: "real ndarray \<Rightarrow> real ndarray" where
  "np_abs a = map (map abs) a"

text \<open>\<open>+\<close> on boolean arrays is the logical or.\<close>

definition np_add_bool :: "bool ndarray \<Rightarrow> bool ndarray \<Rightarrow> exn + bool ndarray" where
  "np_add_bool = np_binop (\<lambda>x y. x \<or> y)"

text \<open>The pixels a boolean mask selects.\<close>

definition mask_pixels :: "bool ndarray \<Rightarrow> (nat \<times> nat) set" where
  "mask_pixels m = {(i, j). i < length m \<and> j < length (m ! i) \<and> m ! i ! j}"

text \<open>
  The median-diff map as the specification words it, pixel by pixel over the shape of the
  ground truth: \<open>|median_result - gt| - |algo_result - gt|\<close>.
\<close>

definition median_diff_spec :: "real ndarray \<Rightarrow> real ndarray \<Rightarrow> real ndarray \<Rightarrow> real ndarray" where
  "median_diff_spec median_result gt algo_result = (case shape gt of (h, w) \<Rightarrow>
     map (\<lambda>i. map (\<lambda>j. \<bar>median_result ! i ! j - gt ! i ! j\<bar> - \<bar>algo_result ! i ! j - gt ! i ! j\<bar>)
                [0..<w])
         [0..<h])"

text \<open>
  Division and remainder of Python 2 integers (the module is Python 2: it converts to
  \<open>float\<close> where it wants a true division): both round towards minus infinity, as
  \<open>div\<close> and \<open>mod\<close> on \<open>int\<close> do, and raise on a zero divisor.
\<close>

definition py_floordiv :: "int \<Rightarrow> int \<Rightarrow> exn + int" where
  "py_floordiv a b = (if b \<noteq> 0 then Inr (a div b) else Inl ZeroDivisionError)"

definition py_mod :: "int \<Rightarrow> int \<Rightarrow> exn + int" where
  "py_mod a b = (if b \<noteq> 0 then Inr (a mod b) else Inl ZeroDivisionError)"

definition py_truediv :: "real \<Rightarrow> real \<Rightarrow> exn + real" where
  "py_truediv a b = (if b \<noteq> 0 then Inr (a / b) else Inl ZeroDivisionError)"

text \<open>\<open>xs[i]\<close> on a list.\<close>

definition py_index :: "'a list \<Rightarrow> int \<Rightarrow> exn + 'a" where
  "py_index xs i =
     (if 0 \<le> i \<and> i < int (length xs) then Inr (xs ! nat i)
      else if - int (length xs) \<le> i \<and> i < 0 then Inr (xs ! nat (i + int (length xs)))
      else Inl IndexError)"

text \<open>Reading a local variable that no statement has bound yet.\<close>

definition py_local :: "'a option \<Rightarrow> exn + 'a" where
  "py_local v = (case v of None \<Rightarrow> Inl UnboundLocalError | Some x \<Rightarrow> Inr x)"

definition py_enumerate :: "'a list \<Rightarrow> (int \<times> 'a) list" where
  "py_enumerate xs = zip (map int [0..<length xs]) xs"

text \<open>
  \<open>"%0.1f" % x\<close>: the decimal expansion of \<open>x\<close> rounded to one digit after the point,
  ties to the even digit, with the sign of \<open>x\<close>.
\<close>

definition digit_char :: "nat \<Rightarrow> char" where
  "digit_char d = ''0123456789'' ! (d mod 10)"

fun decimal :: "nat \<Rightarrow> string" where
  "decimal n = (if n < 10 then [digit_char n] else decimal (n div 10) @ [digit_char (n mod 10)])"

definition round_half_even :: "real \<Rightarrow> nat" where
  "round_half_even y = (let f = nat \<lfloor>y\<rfloor>; r = y - real f in
     if r < 1 / 2 then f else if r > 1 / 2 then f + 1 else if even f then f else f + 1)"

definition format_0_1f :: "real \<Rightarrow> string" where
  "format_0_1f x = (let t = round_half_even (\<bar>x\<bar> * 10) in
     (if x < 0 then ''-'' else []) @ decimal (t div 10) @ ''.'' @ [digit_char (t mod 10)])"

subsection \<open>Scenes, algorithms, metrics\<close>

record scene =
  get_name :: string
  get_display_name :: string
  get_category :: string
  get_center_view :: "rgb ndarray"
  get_gt :: "real ndarray"
  hidden_gt :: bool

datatype algorithm = Algorithm (algo_get_name: string) (algo_get_display_name: string)

datatype metric =
    Runtime bool
  | MSE
  | Quantile int
  | BadPix real
  | MAEPlanes
  | MAEContinSurf
  | BumpinessPlanes
  | BumpinessContinSurf
  | FineFattening
  | FineThinning
  | Discontinuities
  | OtherMetric string

subsection \<open>The calls a figure is made of\<close>

datatype cmap = RdYlGn

datatype image = Gray "real ndarray" | Colour "rgb ndarray"

text \<open>
  The keyword arguments of \<open>plt.imshow\<close>: none, those a function of \<open>settings\<close> computes,
  or \<open>interpolation\<close>, \<open>cmap\<close>, \<open>vmin\<close> and \<open>vmax\<close> given in the call.
\<close>

datatype imshow_args =
    NoArgs
  | DispMapArgs scene
  | DiffMapArgs real real
  | AbsDiffMapArgs
  | MetricArgs metric
  | Explicit string cmap real real

datatype event =
    Figure real real
  | PrepareGrid int int
  | PrepareGridWithColorbar int int scene
  | Subplot int
  | Imshow image imshow_args
  | Title string int
  | Xlabel string int
  | Ylabel string "int option"
  | Annotate string "int \<times> int" "int \<times> int" int
  | AddColorbar int image imshow_args real real int int
  | Pixelize "real ndarray" real
  | GetScoreFromMask metric "real ndarray" "real ndarray" scene "bool ndarray" bool
  | SaveTightFigure string string bool bool real real "int option"
  | RadarChartPlot "algorithm list" "scene list" "metric list" "string list" "int list"
      string string string
  | CompareRelativePerformances "algorithm list" "scene list" "metric list" int

text \<open>
  \<open>Subplot k\<close> is \<open>plt.subplot(grid[k])\<close> and \<open>AddColorbar k ...\<close> is
  \<open>plotting.add_colorbar(grid[k], ...)\<close>: \<open>k\<close> is the index the module computes.
  \<open>SaveTightFigure name subdir ...\<close> is \<open>plotting.get_path_to_figure(name, subdir)\<close>
  followed by \<open>plotting.save_tight_figure\<close> on the figure and that path.
\<close>

text \<open>The code of this repository that the module calls and that is not part of it.\<close>

record collab =
  get_algo_result :: "scene \<Rightarrow> algorithm \<Rightarrow> exn + real ndarray"
  PerPixMedianDiff :: algorithm
  pixelize :: "rng \<Rightarrow> real ndarray \<Rightarrow> real \<Rightarrow> real ndarray \<times> rng"
  colorbar_size :: "int \<Rightarrow> int \<Rightarrow> scene \<Rightarrow> real \<times> real"
  get_normal_vis_from_disp_map :: "scene \<Rightarrow> real ndarray \<Rightarrow> rgb ndarray"
  get_evaluation_mask :: "metric \<Rightarrow> scene \<Rightarrow> bool ndarray"
  get_score_from_mask ::
    "metric \<Rightarrow> real ndarray \<Rightarrow> real ndarray \<Rightarrow> scene \<Rightarrow> bool ndarray \<Rightarrow> bool \<Rightarrow> real \<times> real ndarray"
  get_stratified_metrics :: "metric list"
  get_stratified_scenes :: "scene list"
  get_training_scenes :: "scene list"
  get_test_scenes :: "scene list"
  metric_display_name :: "metric \<Rightarrow> string"

subsection \<open>Running statements: a trace and an outcome\<close>

type_synonym 'a run = "event list \<times> (exn + 'a)"

definition ret :: "'a \<Rightarrow> 'a run" where
  "ret x = ([], Inr x)"

definition emit :: "event \<Rightarrow> unit run" where
  "emit e = ([e], Inr ())"

definition lift :: "exn + 'a \<Rightarrow> 'a run" where
  "lift r = ([], r)"

definition bind :: "'a run \<Rightarrow> ('a \<Rightarrow> 'b run) \<Rightarrow> 'b run" where
  "bind m f = (case m of
       (t, Inl e) \<Rightarrow> (t, Inl e)
     | (t, Inr x) \<Rightarrow> (case f x of (t', r) \<Rightarrow> (t @ t', r)))"

fun seq :: "unit run list \<Rightarrow> unit run" where
  "seq [] = ret ()"
| "seq (m # ms) = bind m (\<lambda>_. seq ms)"

definition when_do :: "bool \<Rightarrow> unit run \<Rightarrow> unit run" where
  "when_do b m = (if b then m else ret ())"

text \<open>
  A \<open>for\<close> loop: the body runs on each element in turn, from the local variables the
  previous round left, and the loop stops at the first exception.
\<close>

fun for_loop :: "('s \<Rightarrow> 'a \<Rightarrow> 's run) \<Rightarrow> 'a list \<Rightarrow> 's \<Rightarrow> 's run" where
  "for_loop body [] s = ret s"
| "for_loop body (x # xs) s = bind (body s x) (for_loop body xs)"

subsection \<open>plot\_scene\_overview\<close>

definition scene_overview_body :: "collab \<Rightarrow> int \<Rightarrow> int \<Rightarrow> rng \<Rightarrow> int \<times> scene \<Rightarrow> rng run" where
  "scene_overview_body C cols fs g = (\<lambda>(idx_s, scene).
     let center_view = get_center_view scene in
     bind (seq [
       emit (Subplot idx_s),
       emit (Imshow (Colour center_view) NoArgs),
       emit (Title ([CHR 0x0A, CHR 0x0A] @ get_display_name scene) fs)]) (\<lambda>_.
     let gt = get_gt scene in
     bind (emit (Subplot (cols + idx_s))) (\<lambda>_.
     bind (if hidden_gt scene
           then bind (emit (Pixelize gt (1 / 2))) (\<lambda>_. ret (pixelize C g gt (1 / 2)))
           else ret (gt, g)) (\<lambda>(gt, g).
     bind (emit (Imshow (Gray gt) (DispMapArgs scene))) (\<lambda>_.
     ret g)))))"

definition plot_scene_overview :: "collab \<Rightarrow> rng \<Rightarrow> scene list \<Rightarrow> string \<Rightarrow> int \<Rightarrow> rng run" where
  "plot_scene_overview C g scenes subdir fs = (
     let rows = 2; cols = int (length scenes) in
     bind (emit (Figure (216 / 10) 4)) (\<lambda>_.
     bind (emit (PrepareGrid rows cols)) (\<lambda>_.
     bind (for_loop (scene_overview_body C cols fs) (py_enumerate scenes) g) (\<lambda>g.
     let height = 785 in
     bind (seq [
       emit (Annotate ''(a) Stratified Scenes'' (400, 420) (500, height) fs),
       emit (Annotate ''(b) Training Scenes'' (400, 420) (1910, height) fs),
       emit (Annotate ''(c) Test Scenes (Hidden Ground Truth)'' (400, 420) (3070, height) fs),
       emit (SaveTightFigure ''scenes'' subdir True True (2 / 100) (2 / 100) (Some 200))]) (\<lambda>_.
     ret g)))))"

subsection \<open>plot\_normals\_explanation\<close>

definition plot_normals_explanation :: "collab \<Rightarrow> scene \<Rightarrow> algorithm \<Rightarrow> int \<Rightarrow> string \<Rightarrow> unit run" where
  "plot_normals_explanation C scene algorithm fs subdir = (
     let rows = 1; cols = 4 in
     bind (emit (Figure 10 4)) (\<lambda>_.
     bind (emit (PrepareGridWithColorbar rows cols scene)) (\<lambda>_.
     let (cb_height, cb_width) = colorbar_size C rows cols scene;
         normals_contin = MAEContinSurf;
         normals_planes = MAEPlanes;
         gt = get_gt scene in
     bind (lift (get_algo_result C scene algorithm)) (\<lambda>algo_result.
     bind (lift (np_add_bool (get_evaluation_mask C normals_contin scene)
                             (get_evaluation_mask C normals_planes scene))) (\<lambda>mask.
     bind (emit (GetScoreFromMask normals_contin algo_result gt scene mask True)) (\<lambda>_.
     let (score_normals, vis_normals) =
           get_score_from_mask C normals_contin algo_result gt scene mask True in
     seq [
       emit (Subplot 0),
       emit (Imshow (Colour (get_normal_vis_from_disp_map C scene gt)) NoArgs),
       emit (Title ''Ground Truth Normals'' fs),
       emit (Subplot 1),
       emit (Imshow (Colour (get_normal_vis_from_disp_map C scene algo_result)) NoArgs),
       emit (Title ''Algorithm Normals'' fs),
       emit (Subplot 2),
       emit (Imshow (Gray vis_normals) (MetricArgs normals_contin)),
       emit (Title (''Median Angular Error: '' @ format_0_1f score_normals) fs),
       emit (Subplot 3),
       emit (AddColorbar 3 (Gray vis_normals) (MetricArgs normals_contin) cb_height cb_width 4 fs),
       emit (SaveTightFigure (''metrics_'' @ get_name scene @ ''_'' @ algo_get_name algorithm)
               subdir False True (4 / 100) (3 / 100) None)]))))))"

subsection \<open>plot\_radar\_charts\<close>





subsection \<open>plot\_discont\_overview\<close>

definition discont_body ::
  "collab \<Rightarrow> scene \<Rightarrow> int \<Rightarrow> int \<Rightarrow> int \<Rightarrow> int \<Rightarrow> real \<Rightarrow> real \<Rightarrow> real ndarray \<Rightarrow>
   int \<Rightarrow> int \<Rightarrow> int \<Rightarrow> unit \<Rightarrow> int \<times> algorithm \<Rightarrow> unit run" where
  "discont_body C scene n_vis_types n_entries_per_row cols fs cb_height cb_width median_result
     xmin ymin ww u = (\<lambda>(idx_a, algorithm).
     let gt = get_gt scene in
     bind (lift (get_algo_result C scene algorithm)) (\<lambda>algo_result.
     let idx = idx_a + 1 in
     bind (lift (py_mod idx n_entries_per_row)) (\<lambda>m1.
     let add_ylabel = (m1 = 0) in
     bind (lift (py_mod (idx + 1) n_entries_per_row)) (\<lambda>m2.
     let add_colorbar = (m2 = 0) in
     bind (lift (py_floordiv idx n_entries_per_row)) (\<lambda>q.
     let idx_row = q * n_vis_types in
     bind (lift (py_mod idx n_entries_per_row)) (\<lambda>idx_col.
     let cb_depth = Gray (slice2 algo_result ymin (ymin + ww) xmin (xmin + ww)) in
     bind (seq [
       emit (Subplot (idx_row * cols + idx_col)),
       emit (Imshow cb_depth (DispMapArgs scene)),
       emit (Title (algo_get_display_name algorithm) fs),
       when_do add_ylabel (emit (Ylabel ''DispMap'' (Some fs))),
       when_do add_colorbar
         (emit (AddColorbar (idx_row * cols + idx_col + 1) cb_depth (DispMapArgs scene)
                  cb_height cb_width 7 fs)),
       emit (Subplot ((idx_row + 1) * cols + idx_col))]) (\<lambda>_.
     bind (lift (np_sub median_result gt)) (\<lambda>d1.
     bind (lift (np_sub algo_result gt)) (\<lambda>d2.
     bind (lift (np_sub (np_abs d1) (np_abs d2))) (\<lambda>d.
     let median_diff = slice2 d ymin (ymin + ww) xmin (xmin + ww);
         cb_error = Gray median_diff;
         error_args = Explicit ''none'' RdYlGn (- (5 / 100)) (5 / 100) in
     seq [
       emit (Imshow cb_error error_args),
       when_do add_ylabel (emit (Ylabel ''MedianDiff'' (Some fs))),
       when_do add_colorbar
         (emit (AddColorbar ((idx_row + 1) * cols + idx_col + 1) cb_error error_args
                  cb_height cb_width 7 fs))]))))))))))"

definition plot_discont_overview ::
  "collab \<Rightarrow> algorithm list \<Rightarrow> scene \<Rightarrow> int \<Rightarrow> int \<Rightarrow> string \<Rightarrow> int \<Rightarrow> int \<Rightarrow> int \<Rightarrow> unit run" where
  "plot_discont_overview C algorithms scene n_rows fs subdir xmin ymin ww = (
     let n_vis_types = 2 in
     bind (lift (py_truediv (real_of_int (int (length algorithms) + 1)) (real_of_int n_rows))) (\<lambda>q.
     let n_entries_per_row = \<lceil>q\<rceil>;
         rows = n_vis_types * n_rows;
         cols = n_entries_per_row + 1 in
     bind (emit (Figure (real_of_int cols * (17 / 10))
                        (145 / 100 * real_of_int rows * (15 / 10)))) (\<lambda>_.
     bind (emit (PrepareGridWithColorbar rows cols scene)) (\<lambda>_.
     let (cb_height, cb_width) = colorbar_size C rows cols scene;
         median_algo = PerPixMedianDiff C;
         gt = get_gt scene in
     bind (lift (get_algo_result C scene median_algo)) (\<lambda>median_result.
     let center_view = get_center_view scene in
     bind (seq [
       emit (Subplot 0),
       emit (Imshow (Colour (slice2 center_view ymin (ymin + ww) xmin (xmin + ww))) NoArgs),
       emit (Title ''Center View'' fs),
       emit (Ylabel ''DispMap'' (Some fs)),
       emit (Subplot cols),
       emit (Ylabel ''MedianDiff'' (Some fs))]) (\<lambda>_.
     bind (for_loop (discont_body C scene n_vis_types n_entries_per_row cols fs cb_height cb_width
                       median_result xmin ymin ww) (py_enumerate algorithms) ()) (\<lambda>_.
     emit (SaveTightFigure (''discont_'' @ get_name scene) subdir True True
             (3 / 100) (3 / 100) (Some 100)))))))))"

subsection \<open>plot\_median\_comparisons\<close>

text \<open>
  The local variables that are read after the loop that binds them: \<open>idx_a\<close> of the
  inner loop and \<open>scene\<close> of the outer one.
\<close>

record locals =
  idx_a :: "int option"
  scene_var :: "scene option"

definition median_algo_body ::
  "collab \<Rightarrow> scene \<Rightarrow> int \<Rightarrow> int \<Rightarrow> real ndarray \<Rightarrow> real ndarray \<Rightarrow> bool \<Rightarrow> bool \<Rightarrow>
   int \<Rightarrow> real \<Rightarrow> real \<Rightarrow> locals \<Rightarrow> int \<times> algorithm \<Rightarrow> locals run" where
  "median_algo_body C scene cols idx_s gt abs_diff_median_result add_label add_colorbar
     fs cb_height cb_width L = (\<lambda>(i, algorithm).
     let L = L\<lparr>idx_a := Some i\<rparr> in
     bind (lift (get_algo_result C scene algorithm)) (\<lambda>algo_result.
     let add_title = (i = 0) in
     bind (seq [
       emit (Subplot (i * cols + 3 * idx_s)),
       emit (Imshow (Gray algo_result) (DispMapArgs scene)),
       when_do add_title (emit (Title ''DispMap'' fs)),
       when_do add_label (emit (Ylabel (algo_get_display_name algorithm) (Some fs))),
       emit (Subplot (i * cols + 3 * idx_s + 1))]) (\<lambda>_.
     bind (lift (np_sub gt algo_result)) (\<lambda>d.
     let cb1 = Gray d;
         args1 = DiffMapArgs (- (1 / 10)) (1 / 10) in
     bind (seq [
       emit (Imshow cb1 args1),
       when_do add_title (emit (Title ''GT-Algo'' fs)),
       emit (Subplot (i * cols + 3 * idx_s + 2))]) (\<lambda>_.
     bind (lift (np_sub abs_diff_median_result gt)) (\<lambda>d1.
     bind (lift (np_sub algo_result gt)) (\<lambda>d2.
     bind (lift (np_sub (np_abs d1) (np_abs d2))) (\<lambda>median_diff.
     let cb2 = Gray median_diff;
         args2 = Explicit ''none'' RdYlGn (- (5 / 100)) (5 / 100) in
     bind (seq [
       emit (Imshow cb2 args2),
       when_do add_title (emit (Title ''MedianDiff'' fs)),
       when_do add_colorbar
         (if i mod 2 = 0
          then emit (AddColorbar (i * cols + 3 * idx_s + 2 + 1) cb1 args1 cb_height cb_width 4 fs)
          else emit (AddColorbar (i * cols + 3 * idx_s + 2 + 1) cb2 args2 cb_height cb_width 4 fs))])
       (\<lambda>_.
     ret L)))))))))"

definition median_gt_row ::
  "scene \<Rightarrow> int \<Rightarrow> int \<Rightarrow> real ndarray \<Rightarrow> real ndarray \<Rightarrow> bool \<Rightarrow> bool \<Rightarrow>
   int \<Rightarrow> real \<Rightarrow> real \<Rightarrow> locals \<Rightarrow> locals run" where
  "median_gt_row scene cols idx_s gt abs_diff_median_result add_label add_colorbar
     fs cb_height cb_width L = (
     bind (lift (py_local (idx_a L))) (\<lambda>i.
     let i = i + 1;
         L = L\<lparr>idx_a := Some i\<rparr> in
     bind (seq [
       emit (Subplot (i * cols + 3 * idx_s)),
       emit (Imshow (Gray gt) (DispMapArgs scene)),
       emit (Xlabel ''GT'' fs),
       when_do add_label (emit (Ylabel ''Reference'' None)),
       emit (Subplot (i * cols + 3 * idx_s + 1))]) (\<lambda>_.
     bind (lift (np_sub gt abs_diff_median_result)) (\<lambda>d.
     let cb1 = Gray (np_abs d) in
     bind (seq [
       emit (Imshow cb1 AbsDiffMapArgs),
       emit (Xlabel ''|GT-PerPixMedian|'' (fs - 2)),
       when_do add_colorbar
         (emit (AddColorbar (i * cols + 3 * idx_s + 2 + 1) cb1 AbsDiffMapArgs
                  cb_height cb_width 4 fs))]) (\<lambda>_.
     ret L)))))"

definition median_scene_body ::
  "collab \<Rightarrow> algorithm list \<Rightarrow> int \<Rightarrow> int \<Rightarrow> bool \<Rightarrow> int \<Rightarrow> real \<Rightarrow> real \<Rightarrow>
   locals \<Rightarrow> int \<times> scene \<Rightarrow> locals run" where
  "median_scene_body C algorithms cols n_scenes with_gt_row fs cb_height cb_width L =
     (\<lambda>(idx_s, scene).
     let L = L\<lparr>scene_var := Some scene\<rparr>;
         gt = get_gt scene in
     bind (lift (get_algo_result C scene (PerPixMedianDiff C))) (\<lambda>abs_diff_median_result.
     let add_label = (idx_s = 0);
         add_colorbar = (idx_s = n_scenes - 1) in
     bind (for_loop (median_algo_body C scene cols idx_s gt abs_diff_median_result add_label
                       add_colorbar fs cb_height cb_width) (py_enumerate algorithms) L) (\<lambda>L.
     if with_gt_row
     then median_gt_row scene cols idx_s gt abs_diff_median_result add_label add_colorbar
            fs cb_height cb_width L
     else ret L)))"

definition plot_median_comparisons ::
  "collab \<Rightarrow> scene list \<Rightarrow> algorithm list \<Rightarrow> string \<Rightarrow> bool \<Rightarrow> int \<Rightarrow> unit run" where
  "plot_median_comparisons C scenes algorithms subdir with_gt_row fs = (
     let rows = int (length algorithms) + (if with_gt_row then 1 else 0);
         cols = int (length scenes) * 3 + 1 in
     bind (emit (Figure (real_of_int cols * (13 / 10)) (real_of_int rows * (15 / 10)))) (\<lambda>_.
     bind (lift (py_index scenes 0)) (\<lambda>scene0.
     bind (emit (PrepareGridWithColorbar rows cols scene0)) (\<lambda>_.
     let (cb_height, cb_width) = colorbar_size C rows cols scene0;
         cb_height = cb_height * (8 / 10) in
     bind (for_loop (median_scene_body C algorithms cols (int (length scenes)) with_gt_row fs
                       cb_height cb_width)
             (py_enumerate scenes) \<lparr>idx_a = None, scene_var = None\<rparr>) (\<lambda>L.
     bind (lift (py_local (scene_var L))) (\<lambda>scene.
     emit (SaveTightFigure (''median_comparison_'' @ get_category scene) subdir True True
             (2 / 100) 0 None)))))))"

subsection \<open>Reading a trace\<close>

text \<open>The indices into the grid that a trace uses, in the order of the calls.\<close>

fun grid_index :: "event \<Rightarrow> int list" where
  "grid_index (Subplot k) = [k]"
| "grid_index (AddColorbar k _ _ _ _ _ _) = [k]"
| "grid_index _ = []"

definition grid_indices :: "event list \<Rightarrow> int list" where
  "grid_indices t = concat (map grid_index t)"



fun is_figure :: "event \<Rightarrow> bool" where
  "is_figure (Figure _ _) = True"
| "is_figure _ = False"

fun is_save :: "event \<Rightarrow> bool" where
  "is_save (SaveTightFigure _ _ _ _ _ _ _) = True"
| "is_save _ = False"


text \<open>The two calls that draw a median-diff map in the cell \<open>k\<close> of the grid.\<close>

definition median_diff_panel :: "int \<Rightarrow> real ndarray \<Rightarrow> event list" where
  "median_diff_panel k img =
     [Subplot k, Imshow (Gray img) (Explicit ''none'' RdYlGn (- (5 / 100)) (5 / 100))]"

text \<open>The arrays a trace draws with the diverging colour map.\<close>

fun median_diff_image :: "event \<Rightarrow> real ndarray list" where
  "median_diff_image (Imshow (Gray a) (Explicit _ RdYlGn _ _)) = [a]"
| "median_diff_image _ = []"

definition rendered_median_diffs :: "event list \<Rightarrow> real ndarray list" where
  "rendered_median_diffs t = concat (map median_diff_image t)"

text \<open>\<open>n_entries_per_row\<close> of \<open>plot_discont_overview\<close> for \<open>n\<close> algorithms.\<close>

definition entries_per_row :: "nat \<Rightarrow> int \<Rightarrow> int" where
  "entries_per_row n n_rows = \<lceil>real_of_int (int n + 1) / real_of_int n_rows\<rceil>"





definition succeeded :: "'a run \<Rightarrow> bool" where
  "succeeded m = (case snd m of Inl _ \<Rightarrow> False | Inr _ \<Rightarrow> True)"

text \<open>
  The collaborators have a result of the shape of the ground truth for every scene and
  every algorithm, the median baseline included.
\<close>

definition result_ok :: "collab \<Rightarrow> scene \<Rightarrow> algorithm \<Rightarrow> bool" where
  "result_ok C s a = (case get_algo_result C s a of
       Inl _ \<Rightarrow> False
     | Inr r \<Rightarrow> is_rect r \<and> shape r = shape (get_gt s))"

definition results_available :: "collab \<Rightarrow> scene list \<Rightarrow> algorithm list \<Rightarrow> bool" where
  "results_available C scenes algorithms =
     list_all (\<lambda>s. is_rect (get_gt s) \<and> list_all (result_ok C s) (PerPixMedianDiff C # algorithms))
       scenes"

text \<open>
  Modelled from the spec: what \<open>plotting.save_tight_figure\<close> (not among the sources) does
  with the figure it is given. The spec has a figure "created, populated, saved, and
  released (closed) within a single call": \<open>plt.figure\<close> opens a figure and the save
  releases one.
\<close>

fun open_after :: "nat \<Rightarrow> event list \<Rightarrow> nat" where
  "open_after n [] = n"
| "open_after n (e # t) =
     open_after (if is_figure e then Suc n else if is_save e then n - 1 else n) t"

definition figures_left_open :: "event list \<Rightarrow> nat" where
  "figures_left_open t = open_after 0 t"

text \<open>
  A run releases its figure on return only: a run that returns has opened one figure,
  saved once, as its last call, and left no figure open; a run that raises has saved
  nothing and left open the figure it had opened, if it got that far.
\<close>

definition released_on_return_only :: "'a run \<Rightarrow> bool" where
  "released_on_return_only m = (let t = fst m in
     if succeeded m
     then figures_left_open t = 0 \<and> length (filter is_figure t) = 1 \<and>
          length (filter is_save t) = 1 \<and> is_save (last t)
     else figures_left_open t = length (filter is_figure t) \<and>
          length (filter is_figure t) \<le> 1 \<and> \<not> list_ex is_save t)"

text \<open>Calls that neither open nor save a figure, and runs whose only such call is a final save.\<close>

definition quiet :: "event \<Rightarrow> bool" where
  "quiet e = (\<not> is_figure e \<and> \<not> is_save e)"

definition ends_in_save :: "'a run \<Rightarrow> bool" where
  "ends_in_save m = (case snd m of
       Inl e \<Rightarrow> list_all quiet (fst m)
     | Inr x \<Rightarrow> \<exists>mid sv. fst m = mid @ [sv] \<and> list_all quiet mid \<and> is_save sv)"





subsection \<open>The layout of the grids\<close>

text \<open>
  The grid a call prepares, and the indices each loop body uses in it, in the order of
  its calls: a run tracks a list of indices when it has used exactly that list on
  return, and a prefix of it when it raised.
\<close>

definition tracks :: "'a run \<Rightarrow> int list \<Rightarrow> bool" where
  "tracks m ks = (case snd m of
       Inr _ \<Rightarrow> grid_indices (fst m) = ks
     | Inl _ \<Rightarrow> prefix (grid_indices (fst m)) ks)"

definition discont_indices :: "int \<Rightarrow> int \<Rightarrow> int \<Rightarrow> int list" where
  "discont_indices E cols i = (let idx = i + 1; r = idx div E * 2; c = idx mod E;
       cb = ((idx + 1) mod E = 0) in
     [r * cols + c] @ (if cb then [r * cols + c + 1] else []) @
     [(r + 1) * cols + c] @ (if cb then [(r + 1) * cols + c + 1] else []))"

definition median_algo_indices :: "int \<Rightarrow> int \<Rightarrow> bool \<Rightarrow> int \<Rightarrow> int list" where
  "median_algo_indices cols s last_col i =
     [i * cols + 3 * s, i * cols + 3 * s + 1, i * cols + 3 * s + 2] @
     (if last_col then [i * cols + 3 * s + 2 + 1] else [])"

definition median_gt_indices :: "int \<Rightarrow> int \<Rightarrow> bool \<Rightarrow> int \<Rightarrow> int list" where
  "median_gt_indices cols s last_col i =
     [i * cols + 3 * s, i * cols + 3 * s + 1] @
     (if last_col then [i * cols + 3 * s + 2 + 1] else [])"

definition discont_entry :: "int \<Rightarrow> int \<Rightarrow> int" where
  "discont_entry E k =
     (k div (E + 1)) div 2 * E + (if k mod (E + 1) = E then E - 1 else k mod (E + 1))"

definition discont_all_indices :: "nat \<Rightarrow> int \<Rightarrow> int list" where
  "discont_all_indices n n_rows = (let E = entries_per_row n n_rows in
     0 # (E + 1) # concat (map (\<lambda>i. discont_indices E (E + 1) (int i)) [0..<n]))"

definition median_scene_indices :: "int \<Rightarrow> int \<Rightarrow> nat \<Rightarrow> bool \<Rightarrow> int \<Rightarrow> int list" where
  "median_scene_indices cols n A with_gt_row s =
     concat (map (\<lambda>i. median_algo_indices cols s (s = n - 1) (int i)) [0..<A]) @
     (if with_gt_row then median_gt_indices cols s (s = n - 1) (int A) else [])"

definition median_all_indices :: "nat \<Rightarrow> nat \<Rightarrow> bool \<Rightarrow> int list" where
  "median_all_indices S A with_gt_row =
     concat (map (\<lambda>s. median_scene_indices (int S * 3 + 1) (int S) A with_gt_row (int s)) [0..<S])"

definition median_scene_of :: "int \<Rightarrow> int \<Rightarrow> int" where
  "median_scene_of S k = (let c = k mod (S * 3 + 1) in if c = 3 * S then S - 1 else c div 3)"

fun grid_size :: "event \<Rightarrow> (int \<times> int) list" where
  "grid_size (PrepareGrid rows cols) = [(rows, cols)]"
| "grid_size (PrepareGridWithColorbar rows cols _) = [(rows, cols)]"
| "grid_size _ = []"

definition same_grid :: "int \<Rightarrow> int \<Rightarrow> event \<Rightarrow> bool" where
  "same_grid rows cols e = (grid_size e = [] \<or> grid_size e = [(rows, cols)])"

subsection \<open>The calls of plot\_scene\_overview and plot\_normals\_explanation\<close>

text \<open>
  The arrays a trace passes to \<open>plotting.pixelize\<close>, the calls of one round of the loop
  of \<open>plot_scene_overview\<close> from the generator state \<open>g\<close>, the calls after its loop, and
  the calls of \<open>get_score_from_mask\<close>.
\<close>

fun pixelized :: "event \<Rightarrow> real ndarray list" where
  "pixelized (Pixelize a _) = [a]"
| "pixelized _ = []"

definition pixelize_calls :: "event list \<Rightarrow> real ndarray list" where
  "pixelize_calls t = concat (map pixelized t)"

definition scene_overview_events :: "collab \<Rightarrow> int \<Rightarrow> int \<Rightarrow> rng \<Rightarrow> int \<Rightarrow> scene \<Rightarrow> event list" where
  "scene_overview_events C cols fs g k s =
     [Subplot k, Imshow (Colour (get_center_view s)) NoArgs,
      Title ([CHR 0x0A, CHR 0x0A] @ get_display_name s) fs, Subplot (cols + k)] @
     (if hidden_gt s
      then [Pixelize (get_gt s) (1 / 2),
            Imshow (Gray (fst (pixelize C g (get_gt s) (1 / 2)))) (DispMapArgs s)]
      else [Imshow (Gray (get_gt s)) (DispMapArgs s)])"

definition scene_overview_footer :: "string \<Rightarrow> int \<Rightarrow> event list" where
  "scene_overview_footer subdir fs =
     [Annotate ''(a) Stratified Scenes'' (400, 420) (500, 785) fs,
      Annotate ''(b) Training Scenes'' (400, 420) (1910, 785) fs,
      Annotate ''(c) Test Scenes (Hidden Ground Truth)'' (400, 420) (3070, 785) fs,
      SaveTightFigure ''scenes'' subdir True True (2 / 100) (2 / 100) (Some 200)]"

fun is_score_call :: "event \<Rightarrow> bool" where
  "is_score_call (GetScoreFromMask _ _ _ _ _ _) = True"
| "is_score_call _ = False"

subsection \<open>Example inputs\<close>

definition cotton :: scene where
  "cotton = \<lparr>get_name = ''cotton'', get_display_name = ''Cotton'', get_category = ''training'',
     get_center_view = [[(0, 0, 0), (1, 1, 1)], [(1, 0, 0), (0, 1, 0)]],
     get_gt = [[1, 2], [3, 4]], hidden_gt = False\<rparr>"

definition bedroom :: scene where
  "bedroom = \<lparr>get_name = ''bedroom'', get_display_name = ''Bedroom'', get_category = ''test'',
     get_center_view = [[(0, 0, 1), (1, 1, 0)], [(1, 0, 1), (0, 1, 1)]],
     get_gt = [[5, 6], [7, 8]], hidden_gt = True\<rparr>"

definition dino :: scene where
  "dino = cotton\<lparr>get_name := ''dino'', get_display_name := ''Dino''\<rparr>"

definition boxes :: scene where
  "boxes = cotton\<lparr>get_name := ''boxes'', get_display_name := ''Boxes'',
     get_gt := [[2, 2], [1, 1]]\<rparr>"

definition median_algo :: algorithm where
  "median_algo = Algorithm ''per_pix_median_diff'' ''PerPixMedianDiff''"

definition epi1 :: algorithm where
  "epi1 = Algorithm ''epi1'' ''EPI1''"

definition lf :: algorithm where
  "lf = Algorithm ''lf'' ''LF''"

definition no_result :: algorithm where
  "no_result = Algorithm ''no_result'' ''NoResult''"

text \<open>
  Collaborators for the examples: the baseline is off by 0.03 everywhere, \<open>epi1\<close> by
  0.01, every other algorithm by 0.04, and \<open>no_result\<close> has no cached result.
\<close>

definition example_result :: "scene \<Rightarrow> algorithm \<Rightarrow> exn + real ndarray" where
  "example_result s a =
     (if a = no_result then Inl (Raised ''no result'')
      else Inr (map (map (\<lambda>x. x + (if a = median_algo then 3 / 100
                                     else if a = epi1 then 1 / 100 else - (4 / 100))))
                  (get_gt s)))"

definition example_collab :: collab where
  "example_collab = \<lparr>
     get_algo_result = example_result,
     PerPixMedianDiff = median_algo,
     pixelize = (\<lambda>g im f. (rev im, drop 1 g)),
     colorbar_size = (\<lambda>rows cols s. (1, 1 / 10)),
     get_normal_vis_from_disp_map = (\<lambda>s a. map (map (\<lambda>x. (x, x, x))) a),
     get_evaluation_mask =
       (\<lambda>m s. if m = MAEPlanes then [[True, False], [False, False]]
              else [[False, False], [False, True]]),
     get_score_from_mask = (\<lambda>m r g s k v. (1234 / 100, r)),
     get_stratified_metrics = map OtherMetric
       [''s1'', ''s2'', ''s3'', ''s4'', ''s5'', ''s6'', ''s7'', ''s8'', ''s9''],
     get_stratified_scenes = [],
     get_training_scenes = [cotton],
     get_test_scenes = [bedroom],
     metric_display_name = (\<lambda>m. ''Metric: name'')\<rparr>"


section \<open>Properties\<close>

subsection \<open>Running statements\<close>

lemma bind_ret [simp]: "bind (ret x) f = f x"
  by (simp add: bind_def ret_def split: prod.splits)

lemma bind_emit [simp]: "bind (emit e) f = (e # fst (f ()), snd (f ()))"
  by (simp add: bind_def emit_def split: prod.splits)

lemma bind_lift_Inr [simp]: "bind (lift (Inr x)) f = f x"
  by (simp add: bind_def lift_def split: prod.splits)

lemma bind_lift_Inl [simp]: "bind (lift (Inl e)) f = ([], Inl e)"
  by (simp add: bind_def lift_def)

lemma bind_pair_Inl [simp]: "bind (t, Inl e) f = (t, Inl e)"
  by (simp add: bind_def)

lemma bind_pair_Inr [simp]: "bind (t, Inr x) f = (t @ fst (f x), snd (f x))"
  by (simp add: bind_def split: prod.splits)

lemma bind_eq_Inr:
  "bind m f = (t, Inr y) \<longleftrightarrow> (\<exists>t1 x t2. m = (t1, Inr x) \<and> f x = (t2, Inr y) \<and> t = t1 @ t2)"
  by (cases m) (auto simp: bind_def split: sum.splits prod.splits)

lemma when_do_simps [simp]: "when_do True m = m" "when_do False m = ret ()"
  by (simp_all add: when_do_def)

lemma fst_emit [simp]: "fst (emit e) = [e]"
  by (simp add: emit_def)

lemma snd_emit [simp]: "snd (emit e) = Inr ()"
  by (simp add: emit_def)

lemma fst_ret [simp]: "fst (ret x) = []"
  by (simp add: ret_def)

lemma snd_ret [simp]: "snd (ret x) = Inr x"
  by (simp add: ret_def)

lemma fst_bind_all:
  assumes "list_all P (fst m)" "\<And>x. list_all P (fst (f x))"
  shows "list_all P (fst (bind m f))"
proof (cases m)
  case (Pair t r)
  show ?thesis
  proof (cases r)
    case (Inl e)
    then show ?thesis using assms(1) Pair by simp
  next
    case (Inr x)
    then show ?thesis using assms(1) assms(2) [of x] Pair by simp
  qed
qed

lemma fst_seq_all:
  assumes "\<And>m. m \<in> set ms \<Longrightarrow> list_all P (fst m)"
  shows "list_all P (fst (seq ms))"
  using assms by (induction ms) (auto intro!: fst_bind_all)

lemma fst_for_loop_all:
  assumes "\<And>s x. x \<in> set xs \<Longrightarrow> list_all P (fst (body s x))"
  shows "list_all P (fst (for_loop body xs s))"
  using assms by (induction xs arbitrary: s) (auto intro!: fst_bind_all)

lemma fst_lift [simp]: "fst (lift r) = []"
  by (simp add: lift_def)

lemma snd_lift [simp]: "snd (lift r) = r"
  by (simp add: lift_def)

lemma fst_when_do_all:
  "list_all P (fst m) \<Longrightarrow> list_all P (fst (when_do b m))"
  by (cases b) simp_all

lemma for_loop_succeeds:
  assumes "\<And>s x. x \<in> set xs \<Longrightarrow> I s \<Longrightarrow> \<exists>t s'. body s x = (t, Inr s') \<and> I s'"
    and "I s"
  shows "\<exists>t s'. for_loop body xs s = (t, Inr s') \<and> I s'"
  using assms
proof (induction xs arbitrary: s)
  case Nil
  then show ?case by (simp add: ret_def)
next
  case (Cons x xs)
  from Cons.prems obtain t1 s1 where b: "body s x = (t1, Inr s1)" and i: "I s1"
    by (meson list.set_intros(1))
  from Cons.IH [OF _ i] Cons.prems(1) obtain t2 s2
    where l: "for_loop body xs s1 = (t2, Inr s2)" and i2: "I s2"
    by (meson list.set_intros(2))
  show ?case using b l i2 by simp
qed

lemma for_loop_Inr_iter:
  assumes "for_loop body xs s = (t, Inr s')" "x \<in> set xs"
  shows "\<exists>s0 t0 s1. body s0 x = (t0, Inr s1) \<and> sublist t0 t"
  using assms
proof (induction xs arbitrary: s t)
  case Nil
  then show ?case by simp
next
  case (Cons y ys)
  from Cons.prems(1) obtain t1 s1 t2
    where b: "body s y = (t1, Inr s1)" and l: "for_loop body ys s1 = (t2, Inr s')"
      and t: "t = t1 @ t2"
    by (auto simp: bind_eq_Inr)
  show ?case
  proof (cases "x = y")
    case True
    then show ?thesis using b t by (metis sublist_append_rightI)
  next
    case False
    then have "x \<in> set ys" using Cons.prems(2) by simp
    from Cons.IH [OF l this] obtain s0 t0 s1' where
      "body s0 x = (t0, Inr s1')" "sublist t0 t2" by blast
    then show ?thesis using t by (metis sublist_append_leftI sublist_order.order_trans)
  qed
qed

lemma for_loop_Inr_last:
  assumes "for_loop body xs s = (t, Inr s')" "xs \<noteq> []"
  shows "\<exists>s0 t0. body s0 (last xs) = (t0, Inr s')"
  using assms
proof (induction xs arbitrary: s t)
  case Nil
  then show ?case by simp
next
  case (Cons y ys)
  from Cons.prems(1) obtain t1 s1 t2
    where b: "body s y = (t1, Inr s1)" and l: "for_loop body ys s1 = (t2, Inr s')"
    by (auto simp: bind_eq_Inr)
  show ?case
  proof (cases "ys = []")
    case True
    then show ?thesis using b l by (auto simp: ret_def)
  next
    case False
    then show ?thesis using Cons.IH [OF l False] by simp
  qed
qed

subsection \<open>enumerate\<close>

lemma py_enumerate_Nil [simp]: "py_enumerate [] = []"
  by (simp add: py_enumerate_def)

lemma length_py_enumerate [simp]: "length (py_enumerate xs) = length xs"
  by (simp add: py_enumerate_def)

lemma py_enumerate_nth: "i < length xs \<Longrightarrow> py_enumerate xs ! i = (int i, xs ! i)"
  by (simp add: py_enumerate_def)

lemma py_enumerate_Cons:
  "py_enumerate (x # xs) = (0, x) # map (\<lambda>(i, y). (i + 1, y)) (py_enumerate xs)"
proof (rule nth_equalityI)
  show "length (py_enumerate (x # xs)) =
        length ((0, x) # map (\<lambda>(i, y). (i + 1, y)) (py_enumerate xs))"
    by simp
next
  fix i assume "i < length (py_enumerate (x # xs))"
  then show "py_enumerate (x # xs) ! i =
             ((0, x) # map (\<lambda>(i, y). (i + 1, y)) (py_enumerate xs)) ! i"
    by (cases i) (simp_all add: py_enumerate_nth)
qed

lemma in_py_enumerate:
  "(k, x) \<in> set (py_enumerate xs) \<longleftrightarrow> (0 \<le> k \<and> nat k < length xs \<and> x = xs ! nat k)"
  by (force simp: py_enumerate_def in_set_zip)

subsection \<open>The example collaborators\<close>

lemma example_collab_sel [simp]:
  "get_algo_result example_collab = example_result"
  "PerPixMedianDiff example_collab = median_algo"
  "pixelize example_collab = (\<lambda>g im f. (rev im, drop 1 g))"
  "colorbar_size example_collab = (\<lambda>rows cols s. (1, 1 / 10))"
  "get_normal_vis_from_disp_map example_collab = (\<lambda>s a. map (map (\<lambda>x. (x, x, x))) a)"
  "get_evaluation_mask example_collab =
     (\<lambda>m s. if m = MAEPlanes then [[True, False], [False, False]]
            else [[False, False], [False, True]])"
  "get_score_from_mask example_collab = (\<lambda>m r g s k v. (1234 / 100, r))"
  "get_stratified_metrics example_collab = map OtherMetric
     [''s1'', ''s2'', ''s3'', ''s4'', ''s5'', ''s6'', ''s7'', ''s8'', ''s9'']"
  "get_stratified_scenes example_collab = []"
  "get_training_scenes example_collab = [cotton]"
  "get_test_scenes example_collab = [bedroom]"
  by (simp_all add: example_collab_def)

lemma example_result_simps [simp]:
  "example_result s no_result = Inl (Raised ''no result'')"
  "example_result s median_algo = Inr (map (map (\<lambda>x. x + 3 / 100)) (get_gt s))"
  "example_result s epi1 = Inr (map (map (\<lambda>x. x + 1 / 100)) (get_gt s))"
  "example_result s lf = Inr (map (map (\<lambda>x. x - 4 / 100)) (get_gt s))"
  by (simp_all add: example_result_def median_algo_def no_result_def epi1_def lf_def)

lemma example_scene_sel [simp]:
  "get_gt cotton = [[1, 2], [3, 4]]" "hidden_gt cotton = False"
  "get_category cotton = ''training''" "get_name cotton = ''cotton''"
  "get_display_name cotton = ''Cotton''"
  "get_center_view cotton = [[(0, 0, 0), (1, 1, 1)], [(1, 0, 0), (0, 1, 0)]]"
  "get_gt bedroom = [[5, 6], [7, 8]]" "hidden_gt bedroom = True"
  "get_category bedroom = ''test''" "get_name bedroom = ''bedroom''"
  "get_display_name bedroom = ''Bedroom''"
  "get_center_view bedroom = [[(0, 0, 1), (1, 1, 0)], [(1, 0, 1), (0, 1, 1)]]"
  by (simp_all add: cotton_def bedroom_def)

subsection \<open>plot\_median\_comparisons on empty inputs\<close>

lemma median_empty_scenes:
  "plot_median_comparisons C [] algorithms subdir with_gt_row fs =
     ([Figure (13 / 10)
         (real_of_int (int (length algorithms) + (if with_gt_row then 1 else 0)) * (15 / 10))],
      Inl IndexError)"
  by (simp add: plot_median_comparisons_def py_index_def Let_def)

lemma median_scene_body_no_algorithms:
  "median_scene_body C [] cols n True fs h w \<lparr>idx_a = None, scene_var = None\<rparr> (k, s) =
     ([], case get_algo_result C s (PerPixMedianDiff C) of
            Inl e \<Rightarrow> Inl e | Inr m \<Rightarrow> Inl UnboundLocalError)"
  by (cases "get_algo_result C s (PerPixMedianDiff C)")
     (simp_all add: median_scene_body_def median_gt_row_def py_local_def Let_def)

lemma median_no_algorithms:
  assumes "scenes \<noteq> []"
  shows "plot_median_comparisons C scenes [] subdir True fs =
           ([Figure (real_of_int (int (length scenes) * 3 + 1) * (13 / 10)) (15 / 10),
             PrepareGridWithColorbar 1 (int (length scenes) * 3 + 1) (hd scenes)],
            case get_algo_result C (hd scenes) (PerPixMedianDiff C) of
              Inl e \<Rightarrow> Inl e | Inr m \<Rightarrow> Inl UnboundLocalError)"
proof -
  obtain s ss where sc: "scenes = s # ss" using assms by (cases scenes) auto
  show ?thesis
    unfolding sc
    by (cases "get_algo_result C s (PerPixMedianDiff C)")
       (simp_all add: plot_median_comparisons_def py_index_def Let_def py_enumerate_Cons
        median_scene_body_no_algorithms split: prod.splits)
qed

text \<open>
  C10: \<open>plot_median_comparisons\<close> needs scenes, and with \<open>with_gt_row=True\<close> it needs
  algorithms. With no scenes, \<open>scenes[0]\<close> raises IndexError right after the figure is
  created. With scenes, no algorithms and \<open>with_gt_row=True\<close>, the first scene ends in
  an exception: UnboundLocalError at \<open>idx_a += 1\<close> when the baseline's result could be
  fetched, and the exception of that fetch otherwise. In both cases the call does not
  return and nothing is saved.
\<close>

theorem median_comparisons_rejects_empty_inputs:
  "plot_median_comparisons C [] algorithms subdir with_gt_row fs =
     ([Figure (13 / 10)
         (real_of_int (int (length algorithms) + (if with_gt_row then 1 else 0)) * (15 / 10))],
      Inl IndexError) \<and>
   (scenes \<noteq> [] \<longrightarrow>
      plot_median_comparisons C scenes [] subdir True fs =
        ([Figure (real_of_int (int (length scenes) * 3 + 1) * (13 / 10)) (15 / 10),
          PrepareGridWithColorbar 1 (int (length scenes) * 3 + 1) (hd scenes)],
         case get_algo_result C (hd scenes) (PerPixMedianDiff C) of
           Inl e \<Rightarrow> Inl e | Inr m \<Rightarrow> Inl UnboundLocalError) \<and>
      \<not> succeeded (plot_median_comparisons C scenes [] subdir True fs) \<and>
      \<not> list_ex is_save (fst (plot_median_comparisons C scenes [] subdir True fs)))"
proof -
  have "\<not> succeeded (plot_median_comparisons C scenes [] subdir True fs)" if "scenes \<noteq> []"
    using median_no_algorithms [OF that, of C subdir fs]
    by (simp add: succeeded_def split: sum.splits)
  moreover have "\<not> list_ex is_save (fst (plot_median_comparisons C scenes [] subdir True fs))"
    if "scenes \<noteq> []"
    using median_no_algorithms [OF that, of C subdir fs] by simp
  ultimately show ?thesis
    using median_empty_scenes median_no_algorithms by blast
qed

theorem median_comparisons_rejects_empty_inputs_witness:
  "plot_median_comparisons example_collab [] [epi1] ''figs'' True 12 =
     ([Figure (13 / 10) 3], Inl IndexError) \<and>
   [cotton] \<noteq> [] \<and>
   plot_median_comparisons example_collab [cotton] [] ''figs'' True 12 =
     ([Figure (52 / 10) (15 / 10), PrepareGridWithColorbar 1 4 cotton], Inl UnboundLocalError) \<and>
   \<not> succeeded (plot_median_comparisons example_collab [cotton] [] ''figs'' True 12)"
  using median_comparisons_rejects_empty_inputs
    [of example_collab "[epi1]" "''figs''" True 12 "[cotton]"]
  by (simp add: succeeded_def)

subsection \<open>plot\_radar\_charts\<close>




subsection \<open>Calls that neither open nor save a figure\<close>

lemma open_after_quiet: "list_all quiet t \<Longrightarrow> open_after n (t @ u) = open_after n u"
  by (induction t arbitrary: n) (auto simp: quiet_def)

lemma filter_quiet:
  "list_all quiet t \<Longrightarrow> filter is_save t = [] \<and> filter is_figure t = []"
  by (induction t) (auto simp: quiet_def)

lemma scene_overview_body_quiet:
  "list_all quiet (fst (scene_overview_body C cols fs g x))"
  by (cases x) (simp add: scene_overview_body_def Let_def quiet_def split: prod.splits)

lemma scene_overview_body_Inr:
  "\<exists>t g'. scene_overview_body C cols fs g x = (t, Inr g')"
  by (cases x) (simp add: scene_overview_body_def Let_def split: prod.splits)

lemma discont_body_quiet:
  "list_all quiet (fst (discont_body C scene nv E cols fs h w m xmin ymin ww u x))"
  unfolding discont_body_def Let_def
  by (cases x) (auto intro!: fst_bind_all fst_seq_all fst_when_do_all simp: quiet_def)

lemma median_algo_body_quiet:
  "list_all quiet (fst (median_algo_body C scene cols idx_s gt m al ac fs h w L x))"
  unfolding median_algo_body_def Let_def
  by (cases x) (auto intro!: fst_bind_all fst_seq_all fst_when_do_all simp: quiet_def)

lemma median_gt_row_quiet:
  "list_all quiet (fst (median_gt_row scene cols idx_s gt m al ac fs h w L))"
  unfolding median_gt_row_def Let_def
  by (auto intro!: fst_bind_all fst_seq_all fst_when_do_all simp: quiet_def)

lemma median_scene_body_quiet:
  "list_all quiet (fst (median_scene_body C algorithms cols n with_gt_row fs h w L x))"
  unfolding median_scene_body_def Let_def
  by (cases x)
     (auto intro!: fst_bind_all fst_for_loop_all median_algo_body_quiet median_gt_row_quiet)

subsection \<open>Arrays\<close>

lemma shape_Nil [simp]: "shape [] = (0, 0)"
  by (simp add: shape_def)

lemma fst_shape [simp]: "fst (shape a) = length a"
  by (simp add: shape_def)

lemma rect_row_length: "is_rect a \<Longrightarrow> i < length a \<Longrightarrow> length (a ! i) = snd (shape a)"
  by (simp add: is_rect_def list_all_length)

lemma np_binop_same_shape:
  assumes "shape a = shape b"
  shows "np_binop f a b =
           Inr (map (\<lambda>i. map (\<lambda>j. f (a ! i ! j) (b ! i ! j)) [0..<snd (shape a)]) [0..<length a])"
proof -
  obtain h w where s: "shape a = (h, w)" by (cases "shape a")
  have sb: "shape b = (h, w)" using s assms by simp
  have h: "h = length a" using s by (simp add: shape_def)
  have "map (\<lambda>i. map (\<lambda>j. f (a ! bcast_ix h i ! bcast_ix w j) (b ! bcast_ix h i ! bcast_ix w j))
                    [0..<bcast_len w w]) [0..<bcast_len h h] =
        map (\<lambda>i. map (\<lambda>j. f (a ! i ! j) (b ! i ! j)) [0..<w]) [0..<h]"
    by (auto simp: bcast_ix_def bcast_len_def)
  then show ?thesis unfolding np_binop_def s sb using h by (simp add: bcast_ok_def)
qed

lemma shape_map_map:
  "shape (map (\<lambda>i. map (g i) [0..<snd (shape a)]) [0..<length a]) = shape a"
  by (cases a) (simp_all add: shape_def upt_conv_Cons del: upt_Suc)

lemma shape_np_abs [simp]: "shape (np_abs a) = shape a"
  by (cases a) (simp_all add: shape_def np_abs_def)

lemma length_np_abs [simp]: "length (np_abs a) = length a"
  by (simp add: np_abs_def)

lemma np_abs_nth:
  "i < length a \<Longrightarrow> j < length (a ! i) \<Longrightarrow> np_abs a ! i ! j = \<bar>a ! i ! j\<bar>"
  by (simp add: np_abs_def)

lemma np_sub_same_shape:
  assumes "shape a = shape b"
  shows "\<exists>d. np_sub a b = Inr d \<and> shape d = shape a \<and>
             (\<forall>i < length a. \<forall>j < snd (shape a). length (d ! i) = snd (shape a) \<and>
                 d ! i ! j = a ! i ! j - b ! i ! j)"
  using np_binop_same_shape [OF assms, of "\<lambda>x y. x - y"] shape_map_map [of _ a]
  by (auto simp: np_sub_def)

lemma median_diff_refines:
  assumes m: "shape m = shape g" and r: "shape r = shape g"
  shows "\<exists>d1 d2. np_sub m g = Inr d1 \<and> np_sub r g = Inr d2 \<and>
           np_sub (np_abs d1) (np_abs d2) = Inr (median_diff_spec m g r)"
proof -
  obtain d1 where d1: "np_sub m g = Inr d1" "shape d1 = shape m"
    "\<forall>i < length m. \<forall>j < snd (shape m). length (d1 ! i) = snd (shape m) \<and> d1 ! i ! j = m ! i ! j - g ! i ! j"
    using np_sub_same_shape [OF m] by blast
  obtain d2 where d2: "np_sub r g = Inr d2" "shape d2 = shape r"
    "\<forall>i < length r. \<forall>j < snd (shape r). length (d2 ! i) = snd (shape r) \<and> d2 ! i ! j = r ! i ! j - g ! i ! j"
    using np_sub_same_shape [OF r] by blast
  have sh: "shape (np_abs d1) = shape (np_abs d2)" using d1(2) d2(2) m r by simp
  have lm: "length m = length g" "length r = length g" "length d1 = length g" "length d2 = length g"
    using m r d1(2) d2(2) by (metis fst_shape)+
  have "np_sub (np_abs d1) (np_abs d2) =
          Inr (map (\<lambda>i. map (\<lambda>j. np_abs d1 ! i ! j - np_abs d2 ! i ! j) [0..<snd (shape g)]) [0..<length g])"
    using np_binop_same_shape [OF sh, of "\<lambda>x y. x - y"] d1(2) m lm
    by (simp add: np_sub_def)
  also have "map (\<lambda>i. map (\<lambda>j. np_abs d1 ! i ! j - np_abs d2 ! i ! j) [0..<snd (shape g)]) [0..<length g] =
             median_diff_spec m g r"
  proof -
    have el: "np_abs d1 ! i ! j - np_abs d2 ! i ! j =
              \<bar>m ! i ! j - g ! i ! j\<bar> - \<bar>r ! i ! j - g ! i ! j\<bar>"
      if "i < length g" "j < snd (shape g)" for i j
      using that d1(3) d2(3) m r lm by (simp add: np_abs_nth)
    have "median_diff_spec m g r =
            map (\<lambda>i. map (\<lambda>j. \<bar>m ! i ! j - g ! i ! j\<bar> - \<bar>r ! i ! j - g ! i ! j\<bar>)
                        [0..<snd (shape g)]) [0..<length g]"
      by (simp add: median_diff_spec_def split_beta)
    then show ?thesis using el by simp
  qed
  finally show ?thesis using d1(1) d2(1) by blast
qed

subsection \<open>plot\_median\_comparisons when every result is there\<close>

lemma median_algo_body_ok:
  assumes r: "get_algo_result C scene a = Inr r" and sr: "shape r = shape gt"
    and sm: "shape m = shape gt"
  shows "\<exists>t. median_algo_body C scene cols idx_s gt m al ac fs h w L (i, a) =
               (t, Inr (L\<lparr>idx_a := Some i\<rparr>)) \<and>
             sublist [Subplot (i * cols + 3 * idx_s + 2),
                      Imshow (Gray (median_diff_spec m gt r))
                        (Explicit ''none'' RdYlGn (- (5 / 100)) (5 / 100))] t"
proof -
  obtain d where d: "np_sub gt r = Inr d"
    using np_sub_same_shape [of gt r] sr by auto
  obtain d1 d2 where dd: "np_sub m gt = Inr d1" "np_sub r gt = Inr d2"
    "np_sub (np_abs d1) (np_abs d2) = Inr (median_diff_spec m gt r)"
    using median_diff_refines [OF sm sr] by blast
  show ?thesis
    unfolding median_algo_body_def
    by (cases al; cases ac; cases "i = 0"; cases "i mod 2 = 0")
       (simp_all add: r d dd Let_def sublist_Cons_right)
qed

lemma result_okD:
  "result_ok C s a \<Longrightarrow> \<exists>r. get_algo_result C s a = Inr r \<and> is_rect r \<and> shape r = shape (get_gt s)"
  by (auto simp: result_ok_def split: sum.splits)

lemma median_inner_loop_ok:
  assumes "\<And>i a. (i, a) \<in> set xs \<Longrightarrow> result_ok C scene a"
    and sm: "shape m = shape (get_gt scene)"
  shows "\<exists>t. for_loop (median_algo_body C scene cols idx_s (get_gt scene) m al ac fs h w) xs L =
               (t, Inr (if xs = [] then L else L\<lparr>idx_a := Some (fst (last xs))\<rparr>))"
  using assms(1)
proof (induction xs arbitrary: L)
  case Nil
  then show ?case by (simp add: ret_def)
next
  case (Cons x xs)
  obtain i a where x: "x = (i, a)" by (cases x)
  obtain r where r: "get_algo_result C scene a = Inr r" "shape r = shape (get_gt scene)"
    using result_okD [OF Cons.prems [of i a]] x by auto
  obtain t1 where b: "median_algo_body C scene cols idx_s (get_gt scene) m al ac fs h w L (i, a) =
      (t1, Inr (L\<lparr>idx_a := Some i\<rparr>))"
    using median_algo_body_ok [OF r sm] by blast
  obtain t2 where l: "for_loop (median_algo_body C scene cols idx_s (get_gt scene) m al ac fs h w) xs
      (L\<lparr>idx_a := Some i\<rparr>) =
      (t2, Inr (if xs = [] then L\<lparr>idx_a := Some i\<rparr>
                else L\<lparr>idx_a := Some i\<rparr>\<lparr>idx_a := Some (fst (last xs))\<rparr>))"
    using Cons.IH [of "L\<lparr>idx_a := Some i\<rparr>"] Cons.prems by auto
  show ?case using b l x by simp
qed

lemma median_gt_row_ok:
  assumes "idx_a L = Some i" "shape m = shape gt"
  shows "\<exists>t. median_gt_row scene cols idx_s gt m al ac fs h w L = (t, Inr (L\<lparr>idx_a := Some (i + 1)\<rparr>))"
proof -
  obtain d where d: "np_sub gt m = Inr d"
    using np_sub_same_shape [of gt m] assms(2) by auto
  show ?thesis
    unfolding median_gt_row_def
    by (cases al; cases ac) (simp_all add: assms(1) d py_local_def Let_def)
qed

lemma median_scene_body_ok:
  assumes ok: "list_all (result_ok C s) (PerPixMedianDiff C # algorithms)"
    and ne: "algorithms \<noteq> [] \<or> \<not> with_gt_row"
  shows "\<exists>t L'. median_scene_body C algorithms cols n with_gt_row fs h w L (k, s) = (t, Inr L') \<and>
           scene_var L' = Some s"
proof -
  obtain m where m: "get_algo_result C s (PerPixMedianDiff C) = Inr m" "shape m = shape (get_gt s)"
    using result_okD [of C s "PerPixMedianDiff C"] ok by auto
  have all: "\<And>i a. (i, a) \<in> set (py_enumerate algorithms) \<Longrightarrow> result_ok C s a"
    using ok by (auto simp: in_py_enumerate list_all_length)
  let ?L = "L\<lparr>scene_var := Some s\<rparr>"
  let ?xs = "py_enumerate algorithms"
  obtain t1 where l: "for_loop (median_algo_body C s cols k (get_gt s) m (k = 0) (k = n - 1) fs h w)
      ?xs ?L = (t1, Inr (if ?xs = [] then ?L else ?L\<lparr>idx_a := Some (fst (last ?xs))\<rparr>))"
    using median_inner_loop_ok [where xs = ?xs and C = C and scene = s and m = m and L = ?L]
      all m(2) by blast
  show ?thesis
  proof (cases with_gt_row)
    case False
    then show ?thesis using m l by (simp add: median_scene_body_def Let_def)
  next
    case True
    then have "?xs \<noteq> []" using ne by (cases algorithms) (simp_all add: py_enumerate_Cons)
    then have l': "for_loop (median_algo_body C s cols k (get_gt s) m (k = 0) (k = n - 1) fs h w)
      ?xs ?L = (t1, Inr (?L\<lparr>idx_a := Some (fst (last ?xs))\<rparr>))"
      using l by simp
    obtain t2 where g: "median_gt_row s cols k (get_gt s) m (k = 0) (k = n - 1) fs h w
        (?L\<lparr>idx_a := Some (fst (last ?xs))\<rparr>) =
        (t2, Inr (?L\<lparr>idx_a := Some (fst (last ?xs))\<rparr>\<lparr>idx_a := Some (fst (last ?xs) + 1)\<rparr>))"
      using median_gt_row_ok [where L = "?L\<lparr>idx_a := Some (fst (last ?xs))\<rparr>"
          and i = "fst (last ?xs)" and m = m and gt = "get_gt s" and scene = s and cols = cols
          and idx_s = k and al = "k = 0" and ac = "k = n - 1" and fs = fs and h = h and w = w]
        m(2) by force
    show ?thesis using True m l' g by (simp add: median_scene_body_def Let_def)
  qed
qed

lemma last_py_enumerate:
  "xs \<noteq> [] \<Longrightarrow> last (py_enumerate xs) = (int (length xs) - 1, last xs)"
proof -
  assume ne: "xs \<noteq> []"
  then have "py_enumerate xs \<noteq> []" by (cases xs) (simp_all add: py_enumerate_Cons)
  then have "last (py_enumerate xs) = py_enumerate xs ! (length xs - 1)"
    by (simp add: last_conv_nth)
  also have "\<dots> = (int (length xs - 1), xs ! (length xs - 1))"
    using ne by (simp add: py_enumerate_nth)
  also have "\<dots> = (int (length xs) - 1, last xs)"
    using ne by (simp add: last_conv_nth of_nat_diff Suc_leI)
  finally show ?thesis .
qed

lemma hd_py_index: "xs \<noteq> [] \<Longrightarrow> py_index xs 0 = Inr (hd xs)"
  by (cases xs) (simp_all add: py_index_def)

lemma median_comparisons_ok:
  assumes av: "results_available C scenes algorithms" and sc: "scenes \<noteq> []"
    and ne: "algorithms \<noteq> [] \<or> \<not> with_gt_row"
  shows "\<exists>lt L.
     for_loop (median_scene_body C algorithms (int (length scenes) * 3 + 1) (int (length scenes))
                 with_gt_row fs
                 (fst (colorbar_size C (int (length algorithms) + (if with_gt_row then 1 else 0))
                         (int (length scenes) * 3 + 1) (hd scenes)) * (8 / 10))
                 (snd (colorbar_size C (int (length algorithms) + (if with_gt_row then 1 else 0))
                         (int (length scenes) * 3 + 1) (hd scenes))))
        (py_enumerate scenes) \<lparr>idx_a = None, scene_var = None\<rparr> = (lt, Inr L) \<and>
     list_all quiet lt \<and>
     plot_median_comparisons C scenes algorithms subdir with_gt_row fs =
       (Figure (real_of_int (int (length scenes) * 3 + 1) * (13 / 10))
               (real_of_int (int (length algorithms) + (if with_gt_row then 1 else 0)) * (15 / 10)) #
        PrepareGridWithColorbar (int (length algorithms) + (if with_gt_row then 1 else 0))
          (int (length scenes) * 3 + 1) (hd scenes) #
        lt @ [SaveTightFigure (''median_comparison_'' @ get_category (last scenes)) subdir
                True True (2 / 100) 0 None],
        Inr ())"
proof -
  let ?body = "median_scene_body C algorithms (int (length scenes) * 3 + 1) (int (length scenes))
                 with_gt_row fs
                 (fst (colorbar_size C (int (length algorithms) + (if with_gt_row then 1 else 0))
                         (int (length scenes) * 3 + 1) (hd scenes)) * (8 / 10))
                 (snd (colorbar_size C (int (length algorithms) + (if with_gt_row then 1 else 0))
                         (int (length scenes) * 3 + 1) (hd scenes)))"
  have ok: "list_all (result_ok C s) (PerPixMedianDiff C # algorithms)"
    if "(k, s) \<in> set (py_enumerate scenes)" for k s
    using av that by (auto simp: results_available_def in_py_enumerate list_all_length)
  have step: "\<exists>t s'. ?body L x = (t, Inr s') \<and> True" if "x \<in> set (py_enumerate scenes)" for L x
    using median_scene_body_ok [OF ok ne] that by (cases x) blast
  obtain lt L where l: "for_loop ?body (py_enumerate scenes) \<lparr>idx_a = None, scene_var = None\<rparr> = (lt, Inr L)"
    using for_loop_succeeds [of "py_enumerate scenes" "\<lambda>_. True" ?body] step by blast
  have q: "list_all quiet lt"
    using fst_for_loop_all [of "py_enumerate scenes" quiet ?body, OF median_scene_body_quiet] l
    by (metis fst_conv)
  have pne: "py_enumerate scenes \<noteq> []" using sc by (cases scenes) (simp_all add: py_enumerate_Cons)
  obtain s0 t0 where b: "?body s0 (last (py_enumerate scenes)) = (t0, Inr L)"
    using for_loop_Inr_last [OF l pne] by blast
  have mem: "(int (length scenes) - 1, last scenes) \<in> set (py_enumerate scenes)"
    using last_in_set [OF pne] last_py_enumerate [OF sc] by simp
  obtain t' L' where e: "?body s0 (int (length scenes) - 1, last scenes) = (t', Inr L')"
      "scene_var L' = Some (last scenes)"
    using median_scene_body_ok [OF ok [OF mem] ne] by blast
  have sv: "scene_var L = Some (last scenes)"
    using b e last_py_enumerate [OF sc] by simp
  show ?thesis
    using l q sv hd_py_index [OF sc]
    by (simp add: plot_median_comparisons_def Let_def split_def py_local_def)
qed

lemma sublist_trans: "sublist xs ys \<Longrightarrow> sublist ys zs \<Longrightarrow> sublist xs zs"
  by (rule sublist_order.order_trans)

lemma median_scene_body_median_diff:
  assumes run: "median_scene_body C algorithms cols n wg fs h w L (k, s) = (t, Inr L')"
    and okm: "result_ok C s (PerPixMedianDiff C)"
    and oka: "result_ok C s (algorithms ! idx)" and idx: "idx < length algorithms"
  shows "\<exists>m r. get_algo_result C s (PerPixMedianDiff C) = Inr m \<and>
           get_algo_result C s (algorithms ! idx) = Inr r \<and>
           sublist (median_diff_panel (int idx * cols + 3 * k + 2) (median_diff_spec m (get_gt s) r)) t"
proof -
  obtain m where m: "get_algo_result C s (PerPixMedianDiff C) = Inr m" "shape m = shape (get_gt s)"
    using result_okD [OF okm] by auto
  obtain r where r: "get_algo_result C s (algorithms ! idx) = Inr r" "shape r = shape (get_gt s)"
    using result_okD [OF oka] by auto
  let ?inner = "median_algo_body C s cols k (get_gt s) m (k = 0) (k = n - 1) fs h w"
  from run obtain t1 L1 t2 where
    l: "for_loop ?inner (py_enumerate algorithms) (L\<lparr>scene_var := Some s\<rparr>) = (t1, Inr L1)"
    and t: "t = t1 @ t2"
    by (auto simp: median_scene_body_def Let_def m bind_eq_Inr)
  have "(int idx, algorithms ! idx) \<in> set (py_enumerate algorithms)"
    using idx by (simp add: in_py_enumerate)
  from for_loop_Inr_iter [OF l this] obtain s0 t0 s1 where
    b: "?inner s0 (int idx, algorithms ! idx) = (t0, Inr s1)" and s: "sublist t0 t1"
    by blast
  have "sublist (median_diff_panel (int idx * cols + 3 * k + 2) (median_diff_spec m (get_gt s) r)) t0"
    using median_algo_body_ok [OF r m(2), of cols k "k = 0" "k = n - 1" fs h w s0 "int idx"] b
    by (auto simp: median_diff_panel_def)
  then have "sublist (median_diff_panel (int idx * cols + 3 * k + 2) (median_diff_spec m (get_gt s) r)) t"
    using s t by (meson sublist_trans sublist_append_rightI)
  then show ?thesis using m(1) r(1) by blast
qed

lemma results_availableD:
  assumes "results_available C scenes algorithms" "i < length scenes"
  shows "result_ok C (scenes ! i) (PerPixMedianDiff C)"
    and "j < length algorithms \<Longrightarrow> result_ok C (scenes ! i) (algorithms ! j)"
    and "is_rect (get_gt (scenes ! i))"
  using assms by (auto simp: results_available_def list_all_iff)

lemma median_comparisons_median_diff:
  assumes av: "results_available C scenes algorithms"
    and i: "si < length scenes" and j: "ai < length algorithms"
  shows "\<exists>m r. get_algo_result C (scenes ! si) (PerPixMedianDiff C) = Inr m \<and>
           get_algo_result C (scenes ! si) (algorithms ! ai) = Inr r \<and>
           sublist (median_diff_panel (int ai * (int (length scenes) * 3 + 1) + 3 * int si + 2)
                      (median_diff_spec m (get_gt (scenes ! si)) r))
             (fst (plot_median_comparisons C scenes algorithms subdir with_gt_row fs))"
proof -
  have sc: "scenes \<noteq> []" and al: "algorithms \<noteq> [] \<or> \<not> with_gt_row" using i j by auto
  let ?body = "median_scene_body C algorithms (int (length scenes) * 3 + 1) (int (length scenes))
                 with_gt_row fs
                 (fst (colorbar_size C (int (length algorithms) + (if with_gt_row then 1 else 0))
                         (int (length scenes) * 3 + 1) (hd scenes)) * (8 / 10))
                 (snd (colorbar_size C (int (length algorithms) + (if with_gt_row then 1 else 0))
                         (int (length scenes) * 3 + 1) (hd scenes)))"
  from median_comparisons_ok [OF av sc al, of fs subdir] obtain lt L where
    l: "for_loop ?body (py_enumerate scenes) \<lparr>idx_a = None, scene_var = None\<rparr> = (lt, Inr L)"
    and run: "sublist lt (fst (plot_median_comparisons C scenes algorithms subdir with_gt_row fs))"
    by (auto simp: sublist_Cons_right)
  have "(int si, scenes ! si) \<in> set (py_enumerate scenes)"
    using i by (simp add: in_py_enumerate)
  from for_loop_Inr_iter [OF l this] obtain s0 t0 s1 where
    b: "?body s0 (int si, scenes ! si) = (t0, Inr s1)" and s: "sublist t0 lt"
    by blast
  from median_scene_body_median_diff [OF b results_availableD(1) [OF av i]
      results_availableD(2) [OF av i j] j]
  show ?thesis using s run by (meson sublist_trans)
qed

lemma median_diff_spec_nth:
  assumes "i < length g" "j < snd (shape g)"
  shows "median_diff_spec m g r ! i ! j = \<bar>m ! i ! j - g ! i ! j\<bar> - \<bar>r ! i ! j - g ! i ! j\<bar>"
  using assms by (simp add: median_diff_spec_def split_beta)

text \<open>
  C4: with three scenes, two algorithms and \<open>with_gt_row=True\<close>, and the collaborators
  holding a result for every scene and algorithm, \<open>plot_median_comparisons\<close> returns; it
  lays the grid out with \<open>2 + 1\<close> rows and \<open>3 * 3 + 1\<close> columns, and it saves exactly
  once, under the name made from the category of the last scene, which is the category
  the scenes share when they share one.
\<close>

theorem median_comparisons_grid_and_file:
  assumes "length scenes = 3" "length algorithms = 2"
    and "results_available C scenes algorithms"
  shows "succeeded (plot_median_comparisons C scenes algorithms subdir True fs) \<and>
         take 2 (fst (plot_median_comparisons C scenes algorithms subdir True fs)) =
           [Figure 13 (45 / 10), PrepareGridWithColorbar (2 + 1) (3 * 3 + 1) (hd scenes)] \<and>
         filter is_save (fst (plot_median_comparisons C scenes algorithms subdir True fs)) =
           [SaveTightFigure (''median_comparison_'' @ get_category (last scenes)) subdir
              True True (2 / 100) 0 None] \<and>
         (list_all (\<lambda>s. get_category s = c) scenes \<longrightarrow> get_category (last scenes) = c)"
proof -
  have sc: "scenes \<noteq> []" and al: "algorithms \<noteq> [] \<or> \<not> True" using assms(1,2) by auto
  from median_comparisons_ok [OF assms(3) sc al, of fs subdir] obtain lt where
    q: "list_all quiet lt" and
    run: "plot_median_comparisons C scenes algorithms subdir True fs =
       (Figure (real_of_int (int (length scenes) * 3 + 1) * (13 / 10))
               (real_of_int (int (length algorithms) + 1) * (15 / 10)) #
        PrepareGridWithColorbar (int (length algorithms) + 1)
          (int (length scenes) * 3 + 1) (hd scenes) #
        lt @ [SaveTightFigure (''median_comparison_'' @ get_category (last scenes)) subdir
                True True (2 / 100) 0 None],
        Inr ())"
    by auto
  have "get_category (last scenes) = c" if "list_all (\<lambda>s. get_category s = c) scenes"
    using that last_in_set [OF sc] by (auto simp: list_all_iff)
  then show ?thesis
    using filter_quiet [OF q] by (simp add: run assms(1,2) succeeded_def)
qed

theorem median_comparisons_grid_and_file_witness:
  "length [cotton, dino, boxes] = 3 \<and> length [epi1, lf] = 2 \<and>
   results_available example_collab [cotton, dino, boxes] [epi1, lf] \<and>
   succeeded (plot_median_comparisons example_collab [cotton, dino, boxes] [epi1, lf] ''figs'' True 12) \<and>
   take 2 (fst (plot_median_comparisons example_collab [cotton, dino, boxes] [epi1, lf] ''figs'' True 12)) =
     [Figure 13 (45 / 10), PrepareGridWithColorbar 3 10 cotton] \<and>
   filter is_save
     (fst (plot_median_comparisons example_collab [cotton, dino, boxes] [epi1, lf] ''figs'' True 12)) =
     [SaveTightFigure ''median_comparison_training'' ''figs'' True True (2 / 100) 0 None]"
proof -
  have a: "results_available example_collab [cotton, dino, boxes] [epi1, lf]"
    by code_simp
  have c: "list_all (\<lambda>s. get_category s = ''training'') [cotton, dino, boxes]"
    by (simp add: dino_def boxes_def)
  show ?thesis
    using a c median_comparisons_grid_and_file
      [of "[cotton, dino, boxes]" "[epi1, lf]" example_collab "''figs''" 12 "''training''"]
    by (simp add: boxes_def)
qed

subsection \<open>plot\_discont\_overview when every result is there\<close>

lemma entries_per_row_pos: "1 \<le> n_rows \<Longrightarrow> 1 \<le> entries_per_row n n_rows"
proof -
  assume "1 \<le> n_rows"
  then have "0 < real_of_int (int n + 1) / real_of_int n_rows" by simp
  then have "0 < entries_per_row n n_rows" unfolding entries_per_row_def by linarith
  then show ?thesis by simp
qed

lemma entries_per_row_covers:
  assumes "1 \<le> n_rows"
  shows "int n + 1 \<le> entries_per_row n n_rows * n_rows"
proof -
  have "real_of_int (int n + 1) / real_of_int n_rows \<le> real_of_int (entries_per_row n n_rows)"
    unfolding entries_per_row_def by (rule le_of_int_ceiling)
  then have "real_of_int (int n + 1) \<le> real_of_int (entries_per_row n n_rows) * real_of_int n_rows"
    using assms by (simp add: pos_divide_le_eq)
  then have "real_of_int (int n + 1) \<le> real_of_int (entries_per_row n n_rows * n_rows)" by simp
  then show ?thesis by (simp only: of_int_le_iff)
qed

lemma discont_body_ok:
  assumes r: "get_algo_result C scene a = Inr r" and sr: "shape r = shape (get_gt scene)"
    and sm: "shape m = shape (get_gt scene)" and E: "E \<noteq> 0"
  shows "\<exists>t. discont_body C scene nv E cols fs h w m xmin ymin ww u (i, a) = (t, Inr ()) \<and>
           sublist (median_diff_panel (((i + 1) div E * nv + 1) * cols + (i + 1) mod E)
                      (slice2 (median_diff_spec m (get_gt scene) r) ymin (ymin + ww) xmin (xmin + ww))) t"
proof -
  obtain d1 d2 where dd: "np_sub m (get_gt scene) = Inr d1" "np_sub r (get_gt scene) = Inr d2"
    "np_sub (np_abs d1) (np_abs d2) = Inr (median_diff_spec m (get_gt scene) r)"
    using median_diff_refines [OF sm sr] by blast
  show ?thesis
    unfolding discont_body_def median_diff_panel_def
    by (cases "(i + 1) mod E = 0"; cases "(i + 1 + 1) mod E = 0")
       (simp_all add: r dd E py_mod_def py_floordiv_def Let_def sublist_Cons_right)
qed

lemma discont_overview_ok:
  assumes av: "results_available C [scene] algorithms" and n: "1 \<le> n_rows"
  shows "\<exists>lt m. get_algo_result C scene (PerPixMedianDiff C) = Inr m \<and>
     for_loop (discont_body C scene 2 (entries_per_row (length algorithms) n_rows)
                 (entries_per_row (length algorithms) n_rows + 1) fs
                 (fst (colorbar_size C (2 * n_rows) (entries_per_row (length algorithms) n_rows + 1) scene))
                 (snd (colorbar_size C (2 * n_rows) (entries_per_row (length algorithms) n_rows + 1) scene))
                 m xmin ymin ww)
        (py_enumerate algorithms) () = (lt, Inr ()) \<and>
     list_all quiet lt \<and>
     plot_discont_overview C algorithms scene n_rows fs subdir xmin ymin ww =
       (Figure (real_of_int (entries_per_row (length algorithms) n_rows + 1) * (17 / 10))
               (145 / 100 * real_of_int (2 * n_rows) * (15 / 10)) #
        PrepareGridWithColorbar (2 * n_rows) (entries_per_row (length algorithms) n_rows + 1) scene #
        Subplot 0 #
        Imshow (Colour (slice2 (get_center_view scene) ymin (ymin + ww) xmin (xmin + ww))) NoArgs #
        Title ''Center View'' fs #
        Ylabel ''DispMap'' (Some fs) #
        Subplot (entries_per_row (length algorithms) n_rows + 1) #
        Ylabel ''MedianDiff'' (Some fs) #
        lt @ [SaveTightFigure (''discont_'' @ get_name scene) subdir True True
                (3 / 100) (3 / 100) (Some 100)],
        Inr ())"
proof -
  let ?E = "entries_per_row (length algorithms) n_rows"
  have E: "?E \<noteq> 0" using entries_per_row_pos [OF n, of "length algorithms"] by simp
  obtain m where m: "get_algo_result C scene (PerPixMedianDiff C) = Inr m"
      "shape m = shape (get_gt scene)"
    using result_okD [of C scene "PerPixMedianDiff C"] av
    by (auto simp: results_available_def)
  let ?body = "discont_body C scene 2 ?E (?E + 1) fs
                 (fst (colorbar_size C (2 * n_rows) (?E + 1) scene))
                 (snd (colorbar_size C (2 * n_rows) (?E + 1) scene)) m xmin ymin ww"
  have step: "\<exists>t s'. ?body u x = (t, Inr s') \<and> True" if "x \<in> set (py_enumerate algorithms)" for u x
  proof -
    obtain i a where x: "x = (i, a)" by (cases x)
    then have "result_ok C scene a"
      using that av by (auto simp: results_available_def in_py_enumerate list_all_length)
    then obtain r where "get_algo_result C scene a = Inr r" "shape r = shape (get_gt scene)"
      using result_okD by blast
    from discont_body_ok [OF this m(2) E] show ?thesis unfolding x by blast
  qed
  obtain lt where l: "for_loop ?body (py_enumerate algorithms) () = (lt, Inr ())"
    using for_loop_succeeds [of "py_enumerate algorithms" "\<lambda>_. True" ?body] step by auto
  have q: "list_all quiet lt"
    using fst_for_loop_all [of "py_enumerate algorithms" quiet ?body, OF discont_body_quiet] l
    by (metis fst_conv)
  have nz: "real_of_int n_rows \<noteq> 0" using n by simp
  show ?thesis
    using l q m(1) nz
    by (simp add: plot_discont_overview_def Let_def split_def py_truediv_def entries_per_row_def)
qed

lemma discont_overview_median_diff:
  assumes av: "results_available C [scene] algorithms" and n: "1 \<le> n_rows"
    and j: "ai < length algorithms"
  shows "\<exists>m r. get_algo_result C scene (PerPixMedianDiff C) = Inr m \<and>
           get_algo_result C scene (algorithms ! ai) = Inr r \<and>
           sublist (median_diff_panel
                      (((int ai + 1) div entries_per_row (length algorithms) n_rows * 2 + 1) *
                         (entries_per_row (length algorithms) n_rows + 1) +
                       (int ai + 1) mod entries_per_row (length algorithms) n_rows)
                      (slice2 (median_diff_spec m (get_gt scene) r) ymin (ymin + ww) xmin (xmin + ww)))
             (fst (plot_discont_overview C algorithms scene n_rows fs subdir xmin ymin ww))"
proof -
  let ?E = "entries_per_row (length algorithms) n_rows"
  have E: "?E \<noteq> 0" using entries_per_row_pos [OF n, of "length algorithms"] by simp
  let ?body = "\<lambda>m. discont_body C scene 2 ?E (?E + 1) fs
                 (fst (colorbar_size C (2 * n_rows) (?E + 1) scene))
                 (snd (colorbar_size C (2 * n_rows) (?E + 1) scene)) m xmin ymin ww"
  from discont_overview_ok [OF av n, of fs xmin ymin ww subdir] obtain lt m where
    m: "get_algo_result C scene (PerPixMedianDiff C) = Inr m" and
    l: "for_loop (?body m) (py_enumerate algorithms) () = (lt, Inr ())" and
    run: "sublist lt (fst (plot_discont_overview C algorithms scene n_rows fs subdir xmin ymin ww))"
    by (auto simp: sublist_Cons_right)
  have sm: "shape m = shape (get_gt scene)"
    using result_okD [of C scene "PerPixMedianDiff C"] av m by (auto simp: results_available_def)
  have "result_ok C scene (algorithms ! ai)"
    using av j by (auto simp: results_available_def list_all_length)
  then obtain r where r: "get_algo_result C scene (algorithms ! ai) = Inr r"
      "shape r = shape (get_gt scene)"
    using result_okD by blast
  have "(int ai, algorithms ! ai) \<in> set (py_enumerate algorithms)"
    using j by (simp add: in_py_enumerate)
  from for_loop_Inr_iter [OF l this] obtain s0 t0 s1 where
    b: "?body m s0 (int ai, algorithms ! ai) = (t0, Inr s1)" and s: "sublist t0 lt"
    by blast
  from discont_body_ok [OF r sm E, where nv = 2 and cols = "?E + 1" and fs = fs
      and xmin = xmin and ymin = ymin and ww = ww and u = s0 and i = "int ai"
      and h = "fst (colorbar_size C (2 * n_rows) (?E + 1) scene)"
      and w = "snd (colorbar_size C (2 * n_rows) (?E + 1) scene)"] b
  have "sublist (median_diff_panel (((int ai + 1) div ?E * 2 + 1) * (?E + 1) + (int ai + 1) mod ?E)
          (slice2 (median_diff_spec m (get_gt scene) r) ymin (ymin + ww) xmin (xmin + ww))) t0"
    by auto
  then show ?thesis using m r(1) s run by (meson sublist_trans)
qed

text \<open>
  C1, as amended: in both functions the median-diff panel of every scene and algorithm
  is drawn from \<open>|median_result - gt| - |algo_result - gt|\<close>, taken pixel by pixel, with
  \<open>interpolation="none"\<close>, the colour map RdYlGn, \<open>vmin=-0.05\<close> and \<open>vmax=0.05\<close>; a
  pixel of it is positive exactly when the algorithm's absolute error is the smaller
  one. \<open>plot_median_comparisons\<close> draws the whole array; \<open>plot_discont_overview\<close> draws
  its window \<open>[ymin:ymin+ww, xmin:xmin+ww]\<close>.
\<close>

theorem median_diff_is_rendered:
  assumes "results_available C scenes algorithms" "si < length scenes" "ai < length algorithms"
    and "results_available C [scene] algos" "1 \<le> n_rows" "di < length algos"
  shows
    "(\<exists>m r. get_algo_result C (scenes ! si) (PerPixMedianDiff C) = Inr m \<and>
         get_algo_result C (scenes ! si) (algorithms ! ai) = Inr r \<and>
         sublist (median_diff_panel (int ai * (int (length scenes) * 3 + 1) + 3 * int si + 2)
                    (median_diff_spec m (get_gt (scenes ! si)) r))
           (fst (plot_median_comparisons C scenes algorithms subdir with_gt_row fs))) \<and>
     (\<exists>m r. get_algo_result C scene (PerPixMedianDiff C) = Inr m \<and>
         get_algo_result C scene (algos ! di) = Inr r \<and>
         sublist (median_diff_panel
                    (((int di + 1) div entries_per_row (length algos) n_rows * 2 + 1) *
                       (entries_per_row (length algos) n_rows + 1) +
                     (int di + 1) mod entries_per_row (length algos) n_rows)
                    (slice2 (median_diff_spec m (get_gt scene) r) ymin (ymin + ww) xmin (xmin + ww)))
           (fst (plot_discont_overview C algos scene n_rows fs' subdir' xmin ymin ww))) \<and>
     median_diff_panel k img =
       [Subplot k, Imshow (Gray img) (Explicit ''none'' RdYlGn (- (5 / 100)) (5 / 100))] \<and>
     (i < length g \<and> j < snd (shape g) \<longrightarrow>
        median_diff_spec m' g r' ! i ! j = \<bar>m' ! i ! j - g ! i ! j\<bar> - \<bar>r' ! i ! j - g ! i ! j\<bar> \<and>
        (0 < median_diff_spec m' g r' ! i ! j \<longleftrightarrow>
           \<bar>r' ! i ! j - g ! i ! j\<bar> < \<bar>m' ! i ! j - g ! i ! j\<bar>))"
proof -
  have "median_diff_spec m' g r' ! i ! j = \<bar>m' ! i ! j - g ! i ! j\<bar> - \<bar>r' ! i ! j - g ! i ! j\<bar>"
    if "i < length g" "j < snd (shape g)"
    using median_diff_spec_nth [OF that] .
  then show ?thesis
    using median_comparisons_median_diff [OF assms(1-3), of subdir with_gt_row fs]
      discont_overview_median_diff [OF assms(4-6), of ymin ww xmin fs' subdir']
    by (simp add: median_diff_panel_def)
qed

theorem median_diff_is_rendered_witness:
  "results_available example_collab [cotton, bedroom] [epi1, lf] \<and>
   (1 :: nat) < length [cotton, bedroom] \<and> (1 :: nat) < length [epi1, lf] \<and>
   results_available example_collab [cotton] [epi1] \<and> (1 :: int) \<le> 1 \<and>
   (0 :: nat) < length [epi1] \<and>
   sublist (median_diff_panel 12
              (median_diff_spec [[503 / 100, 603 / 100], [703 / 100, 803 / 100]]
                 [[5, 6], [7, 8]] [[496 / 100, 596 / 100], [696 / 100, 796 / 100]]))
     (fst (plot_median_comparisons example_collab [cotton, bedroom] [epi1, lf] ''figs'' True 12)) \<and>
   sublist (median_diff_panel 4
              (slice2 (median_diff_spec [[103 / 100, 203 / 100], [303 / 100, 403 / 100]]
                         [[1, 2], [3, 4]] [[101 / 100, 201 / 100], [301 / 100, 401 / 100]])
                 0 1 0 1))
     (fst (plot_discont_overview example_collab [epi1] cotton 1 15 ''overview'' 0 0 1)) \<and>
   (0 :: nat) < length [[1, 2], [3, 4 :: real]] \<and>
   (1 :: nat) < snd (shape [[1, 2], [3, 4 :: real]]) \<and>
   median_diff_spec [[103 / 100, 203 / 100], [303 / 100, 403 / 100]]
     [[1, 2], [3, 4]] [[101 / 100, 201 / 100], [301 / 100, 401 / 100]] ! 0 ! 1 = 2 / 100"
proof -
  have a: "results_available example_collab [cotton, bedroom] [epi1, lf]"
    and b: "results_available example_collab [cotton] [epi1]"
    and e: "entries_per_row (length [epi1]) 1 = 2"
    by code_simp+
  have s: "snd (shape [[1, 2], [3, 4 :: real]]) = 2" by (simp add: shape_def)
  show ?thesis
    using a b e s median_diff_is_rendered
      [of example_collab "[cotton, bedroom]" "[epi1, lf]" 1 1 cotton "[epi1]" 1 0
        "''figs''" True 12 0 1 0 15 "''overview''" 0 "[]" 0 "[[1, 2], [3, 4]]" 1
        "[[103 / 100, 203 / 100], [303 / 100, 403 / 100]]"
        "[[101 / 100, 201 / 100], [301 / 100, 401 / 100]]"]
    by simp
qed

text \<open>
  The claim as stated fails for \<open>plot_discont_overview\<close>: on a 2 by 2 scene with the
  window \<open>xmin = 0\<close>, \<open>ymin = 0\<close>, \<open>ww = 1\<close> the array it draws is the one pixel of the
  window, not the array of the formula.
\<close>

theorem discont_median_diff_is_cropped:
  "get_algo_result example_collab cotton (PerPixMedianDiff example_collab) =
     Inr [[103 / 100, 203 / 100], [303 / 100, 403 / 100]] \<and>
   get_algo_result example_collab cotton epi1 =
     Inr [[101 / 100, 201 / 100], [301 / 100, 401 / 100]] \<and>
   median_diff_spec [[103 / 100, 203 / 100], [303 / 100, 403 / 100]] (get_gt cotton)
     [[101 / 100, 201 / 100], [301 / 100, 401 / 100]] =
     [[2 / 100, 2 / 100], [2 / 100, 2 / 100]] \<and>
   rendered_median_diffs
     (fst (plot_discont_overview example_collab [epi1] cotton 1 15 ''overview'' 0 0 1)) =
     [[[2 / 100]]]"
  by code_simp

subsection \<open>The indices into the grid\<close>

lemma grid_indices_simps [simp]:
  "grid_indices [] = []"
  "grid_indices (e # t) = grid_index e @ grid_indices t"
  "grid_indices (a @ b) = grid_indices a @ grid_indices b"
  by (simp_all add: grid_indices_def)

lemma fst_bind: "fst (bind m f) = (case snd m of Inl e \<Rightarrow> fst m | Inr x \<Rightarrow> fst m @ fst (f x))"
  by (cases m; cases "snd m") (auto simp: bind_def split: prod.splits)

lemma snd_bind: "snd (bind m f) = (case snd m of Inl e \<Rightarrow> Inl e | Inr x \<Rightarrow> snd (f x))"
  by (cases m; cases "snd m") (auto simp: bind_def split: prod.splits)

lemma tracks_bind:
  assumes "tracks m ks1" "\<And>x. tracks (f x) ks2"
  shows "tracks (bind m f) (ks1 @ ks2)"
proof (cases "snd m")
  case (Inl e)
  then show ?thesis using assms(1) by (simp add: tracks_def fst_bind snd_bind)
next
  case (Inr x)
  then show ?thesis using assms(1) assms(2) [of x]
    by (auto simp: tracks_def fst_bind snd_bind split: sum.splits)
qed

lemma tracks_for_loop:
  assumes "\<And>s x. x \<in> set xs \<Longrightarrow> I s \<Longrightarrow>
             tracks (body s x) (h x) \<and> (\<forall>t s'. body s x = (t, Inr s') \<longrightarrow> I s')"
    and "I s"
  shows "tracks (for_loop body xs s) (concat (map h xs))"
  using assms
proof (induction xs arbitrary: s)
  case Nil
  then show ?case by (simp add: tracks_def)
next
  case (Cons x xs)
  have b: "tracks (body s x) (h x)" using Cons.prems by simp
  show ?case
  proof (cases "snd (body s x)")
    case (Inl e)
    then show ?thesis using b by (simp add: tracks_def fst_bind snd_bind)
  next
    case (Inr s1)
    then have "body s x = (fst (body s x), Inr s1)" by (metis prod.collapse)
    then have i1: "I s1" using Cons.prems by (metis list.set_intros(1))
    have "tracks (for_loop body xs s1) (concat (map h xs))"
    proof (rule Cons.IH)
      show "I s1" by (rule i1)
    next
      fix s' y assume "y \<in> set xs" "I s'"
      then show "tracks (body s' y) (h y) \<and> (\<forall>t s''. body s' y = (t, Inr s'') \<longrightarrow> I s'')"
        using Cons.prems(1) [of y s'] by simp
    qed
    then show ?thesis using b Inr
      by (auto simp: tracks_def fst_bind snd_bind split: sum.splits)
  qed
qed

lemma tracks_distinct:
  assumes "tracks m ks" "distinct ks"
  shows "distinct (grid_indices (fst m))"
  using assms by (auto simp: tracks_def prefix_def split: sum.splits)

lemma tracks_subset:
  assumes "tracks m ks"
  shows "set (grid_indices (fst m)) \<subseteq> set ks"
  using assms by (auto simp: tracks_def prefix_def split: sum.splits)

lemma discont_body_tracks:
  "tracks (discont_body C scene 2 E cols fs h w m xmin ymin ww u (i, a)) (discont_indices E cols i)"
  unfolding discont_body_def discont_indices_def tracks_def Let_def
  by (auto simp: fst_bind snd_bind py_mod_def py_floordiv_def when_do_def split: sum.splits)

lemma median_algo_body_tracks:
  "tracks (median_algo_body C scene cols s gt m al ac fs h w L (i, a)) (median_algo_indices cols s ac i)"
  unfolding median_algo_body_def median_algo_indices_def tracks_def Let_def
  by (auto simp: fst_bind snd_bind when_do_def split: sum.splits)

lemma median_algo_body_state:
  "median_algo_body C scene cols s gt m al ac fs h w L (i, a) = (t, Inr L') \<Longrightarrow>
   L' = L\<lparr>idx_a := Some i\<rparr>"
  unfolding median_algo_body_def Let_def
  by (drule arg_cong [where f = snd]) (auto simp: snd_bind split: sum.splits)

lemma median_gt_row_tracks:
  "idx_a L = Some i \<Longrightarrow>
   tracks (median_gt_row scene cols s gt m al ac fs h w L) (median_gt_indices cols s ac (i + 1))"
  unfolding median_gt_row_def median_gt_indices_def tracks_def Let_def
  by (auto simp: fst_bind snd_bind when_do_def py_local_def split: sum.splits)

lemma median_gt_row_unbound:
  "idx_a L = None \<Longrightarrow> median_gt_row scene cols s gt m al ac fs h w L = ([], Inl UnboundLocalError)"
  by (simp add: median_gt_row_def py_local_def)

lemma cell_div_mod:
  fixes i c cols :: int
  assumes "0 \<le> c" "c < cols"
  shows "(i * cols + c) div cols = i" "(i * cols + c) mod cols = c"
  using assms by simp_all

lemma mod_last_column:
  fixes x E :: int
  assumes "1 \<le> E" "(x + 1) mod E = 0"
  shows "x mod E = E - 1"
proof -
  from assms(2) obtain t where "x + 1 = E * t" by (auto simp: mod_eq_0_iff_dvd)
  then have "x = (t - 1) * E + (E - 1)" by (simp add: algebra_simps)
  then have "x mod E = ((t - 1) * E + (E - 1)) mod E" by simp
  also have "\<dots> = E - 1" using assms(1) by (intro cell_div_mod(2)) simp_all
  finally show ?thesis .
qed

lemma discont_indices_cases:
  assumes E: "1 \<le> E" and i: "0 \<le> i" and k: "k \<in> set (discont_indices E (E + 1) i)"
  shows "\<exists>r c. 0 \<le> c \<and> c \<le> E \<and> k = r * (E + 1) + c \<and>
           (r = (i + 1) div E * 2 \<or> r = (i + 1) div E * 2 + 1) \<and>
           (if c = E then E - 1 else c) = (i + 1) mod E"
proof -
  let ?q = "(i + 1) div E" and ?c = "(i + 1) mod E"
  have c: "0 \<le> ?c" "?c < E" using E by simp_all
  have last: "?c = E - 1" if "(i + 1 + 1) mod E = 0"
    using mod_last_column [OF E that] .
  from k consider
      "k = ?q * 2 * (E + 1) + ?c"
    | "(i + 1 + 1) mod E = 0" "k = ?q * 2 * (E + 1) + ?c + 1"
    | "k = (?q * 2 + 1) * (E + 1) + ?c"
    | "(i + 1 + 1) mod E = 0" "k = (?q * 2 + 1) * (E + 1) + ?c + 1"
    by (auto simp: discont_indices_def Let_def split: if_splits)
  then show ?thesis
  proof cases
    case 1
    then show ?thesis using c by (intro exI [of _ "?q * 2"] exI [of _ ?c]) auto
  next
    case 2
    then show ?thesis using c last by (intro exI [of _ "?q * 2"] exI [of _ E]) auto
  next
    case 3
    then show ?thesis using c by (intro exI [of _ "?q * 2 + 1"] exI [of _ ?c]) auto
  next
    case 4
    then show ?thesis using c last by (intro exI [of _ "?q * 2 + 1"] exI [of _ E]) auto
  qed
qed

lemma discont_indices_entry:
  assumes E: "1 \<le> E" and i: "0 \<le> i" and k: "k \<in> set (discont_indices E (E + 1) i)"
  shows "discont_entry E k = i + 1"
proof -
  from discont_indices_cases [OF assms] obtain r c where
    c: "0 \<le> c" "c \<le> E" and kk: "k = r * (E + 1) + c"
    and r: "r = (i + 1) div E * 2 \<or> r = (i + 1) div E * 2 + 1"
    and m: "(if c = E then E - 1 else c) = (i + 1) mod E"
    by blast
  have d: "k div (E + 1) = r" and md: "k mod (E + 1) = c"
    unfolding kk using c by (simp_all add: cell_div_mod)
  have rd: "r div 2 = (i + 1) div E" using r by auto
  have "discont_entry E k = r div 2 * E + (if c = E then E - 1 else c)"
    unfolding discont_entry_def d md ..
  also have "\<dots> = (i + 1) div E * E + (i + 1) mod E"
    unfolding rd m ..
  finally show ?thesis by simp
qed

lemma discont_indices_range:
  assumes n: "1 \<le> n_rows" and i: "0 \<le> i" "i < int n"
    and k: "k \<in> set (discont_indices (entries_per_row n n_rows) (entries_per_row n n_rows + 1) i)"
  shows "0 \<le> k \<and> k < 2 * n_rows * (entries_per_row n n_rows + 1)"
proof -
  let ?E = "entries_per_row n n_rows"
  have E: "1 \<le> ?E" using entries_per_row_pos [OF n] .
  from discont_indices_cases [OF E i(1) k] obtain r c where
    c: "0 \<le> c" "c \<le> ?E" and kk: "k = r * (?E + 1) + c"
    and r: "r = (i + 1) div ?E * 2 \<or> r = (i + 1) div ?E * 2 + 1"
    by blast
  have q0: "0 \<le> (i + 1) div ?E" using E i(1) by (simp add: pos_imp_zdiv_nonneg_iff)
  have a: "i + 1 < n_rows * ?E"
    using entries_per_row_covers [OF n, of n] i(2) by (simp add: mult.commute)
  have b: "(i + 1) div ?E * ?E + (i + 1) mod ?E = i + 1" by (rule div_mult_mod_eq)
  have c0: "0 \<le> (i + 1) mod ?E" using E by simp
  from a b c0 have "(i + 1) div ?E * ?E < n_rows * ?E" by linarith
  then have "(i + 1) div ?E < n_rows"
    using E by (simp add: mult_less_cancel_right_disj)
  then have r1: "r + 1 \<le> 2 * n_rows" and r0: "0 \<le> r" using r q0 by auto
  have "(r + 1) * (?E + 1) \<le> (2 * n_rows) * (?E + 1)"
    using r1 E by (intro mult_right_mono) simp_all
  then have "r * (?E + 1) + c < 2 * n_rows * (?E + 1)" using c by (simp add: algebra_simps)
  moreover have "0 \<le> r * (?E + 1)" using r0 E by simp
  ultimately show ?thesis using c kk by simp
qed

lemma distinct_concat_by_key:
  assumes "\<And>x. x \<in> set xs \<Longrightarrow> distinct (f x)"
    and "\<And>x k. x \<in> set xs \<Longrightarrow> k \<in> set (f x) \<Longrightarrow> key k = g x"
    and "distinct (map g xs)"
  shows "distinct (concat (map f xs))"
  using assms
proof (induction xs)
  case Nil
  then show ?case by simp
next
  case (Cons x xs)
  have "set (f x) \<inter> set (concat (map f xs)) = {}"
  proof (rule ccontr)
    assume "set (f x) \<inter> set (concat (map f xs)) \<noteq> {}"
    then obtain k y where k: "k \<in> set (f x)" "y \<in> set xs" "k \<in> set (f y)" by auto
    then have "g x = g y" using Cons.prems(2) [of x k] Cons.prems(2) [of y k] by simp
    then show False using Cons.prems(3) k(2) by auto
  qed
  moreover have "distinct (concat (map f xs))"
    using Cons.IH Cons.prems by simp
  ultimately show ?case using Cons.prems(1) by simp
qed

lemma map_fst_py_enumerate:
  "map (\<lambda>x. f (fst x)) (py_enumerate xs) = map (\<lambda>i. f (int i)) [0..<length xs]"
  by (rule nth_equalityI) (simp_all add: py_enumerate_nth)

lemma discont_indices_distinct: "1 \<le> E \<Longrightarrow> distinct (discont_indices E (E + 1) i)"
  by (auto simp: discont_indices_def Let_def algebra_simps)

lemma discont_all_indices_distinct:
  assumes n: "1 \<le> n_rows"
  shows "distinct (discont_all_indices n n_rows)"
proof -
  let ?E = "entries_per_row n n_rows"
  have E: "1 \<le> ?E" using entries_per_row_pos [OF n] .
  have d: "distinct (concat (map (\<lambda>i. discont_indices ?E (?E + 1) (int i)) [0..<n]))"
  proof (rule distinct_concat_by_key [where key = "discont_entry ?E" and g = "\<lambda>i. int i + 1"])
    show "distinct (discont_indices ?E (?E + 1) (int i))" for i
      using discont_indices_distinct [OF E] .
    show "discont_entry ?E k = int i + 1" if "k \<in> set (discont_indices ?E (?E + 1) (int i))" for i k
      using discont_indices_entry [OF E _ that] by simp
    show "distinct (map (\<lambda>i. int i + 1) [0..<n])"
      by (simp add: distinct_map inj_on_def)
  qed
  have e0: "discont_entry ?E 0 = 0" using E by (simp add: discont_entry_def)
  have e1: "discont_entry ?E (?E + 1) = 0" using E by (simp add: discont_entry_def)
  have no: "k \<noteq> 0 \<and> k \<noteq> ?E + 1"
    if "k \<in> set (concat (map (\<lambda>i. discont_indices ?E (?E + 1) (int i)) [0..<n]))" for k
  proof -
    from that obtain i where "k \<in> set (discont_indices ?E (?E + 1) (int i))" by auto
    then have "discont_entry ?E k = int i + 1" using discont_indices_entry [OF E] by simp
    then show ?thesis using e0 e1 by auto
  qed
  show ?thesis using d no E by (auto simp: discont_all_indices_def Let_def)
qed

lemma discont_all_indices_range:
  assumes n: "1 \<le> n_rows" and k: "k \<in> set (discont_all_indices n n_rows)"
  shows "0 \<le> k \<and> k < 2 * n_rows * (entries_per_row n n_rows + 1)"
proof -
  let ?E = "entries_per_row n n_rows"
  have E: "1 \<le> ?E" using entries_per_row_pos [OF n] .
  have big: "2 * (?E + 1) \<le> 2 * n_rows * (?E + 1)"
    using n E by (intro mult_right_mono) simp_all
  from k consider "k = 0" | "k = ?E + 1"
    | i where "i < n" "k \<in> set (discont_indices ?E (?E + 1) (int i))"
    by (auto simp: discont_all_indices_def Let_def)
  then show ?thesis
  proof cases
    case 1
    then show ?thesis using big E by simp
  next
    case 2
    then have "0 \<le> k" "k < 2 * (?E + 1)" using E by simp_all
    then show ?thesis using big by linarith
  next
    case 3
    then show ?thesis using discont_indices_range [OF n _ _ 3(2)] by simp
  qed
qed

lemma discont_overview_tracks:
  "tracks (plot_discont_overview C algorithms scene n_rows fs subdir xmin ymin ww)
     (discont_all_indices (length algorithms) n_rows)"
proof (cases "n_rows = 0")
  case True
  then show ?thesis by (simp add: plot_discont_overview_def py_truediv_def tracks_def)
next
  case False
  let ?E = "entries_per_row (length algorithms) n_rows"
  have L: "tracks (for_loop (discont_body C scene 2 ?E (?E + 1) fs h w m xmin ymin ww)
                    (py_enumerate algorithms) ())
             (concat (map (\<lambda>i. discont_indices ?E (?E + 1) (int i)) [0..<length algorithms]))"
    for h w m
  proof -
    have "tracks (for_loop (discont_body C scene 2 ?E (?E + 1) fs h w m xmin ymin ww)
                    (py_enumerate algorithms) ())
            (concat (map (\<lambda>x. discont_indices ?E (?E + 1) (fst x)) (py_enumerate algorithms)))"
    proof (rule tracks_for_loop [where I = "\<lambda>_. True"])
      fix s :: unit and x :: "int \<times> algorithm"
      show "tracks (discont_body C scene 2 ?E (?E + 1) fs h w m xmin ymin ww s x)
              (discont_indices ?E (?E + 1) (fst x)) \<and>
            (\<forall>t s'. discont_body C scene 2 ?E (?E + 1) fs h w m xmin ymin ww s x = (t, Inr s') \<longrightarrow> True)"
        using discont_body_tracks by (cases x) simp
    qed simp
    then show ?thesis by (simp add: map_fst_py_enumerate)
  qed
  have T: "tracks (bind (emit (Figure a b)) (\<lambda>_.
          bind (emit (PrepareGridWithColorbar rows (?E + 1) scene)) (\<lambda>_.
          bind (lift (get_algo_result C scene (PerPixMedianDiff C))) (\<lambda>median_result.
          bind (seq [
            emit (Subplot 0),
            emit (Imshow (Colour (slice2 (get_center_view scene) ymin (ymin + ww) xmin (xmin + ww))) NoArgs),
            emit (Title ''Center View'' fs),
            emit (Ylabel ''DispMap'' (Some fs)),
            emit (Subplot (?E + 1)),
            emit (Ylabel ''MedianDiff'' (Some fs))]) (\<lambda>_.
          bind (for_loop (discont_body C scene 2 ?E (?E + 1) fs h w median_result xmin ymin ww)
                 (py_enumerate algorithms) ()) (\<lambda>_.
          emit (SaveTightFigure nm subdir True True (3 / 100) (3 / 100) (Some 100))))))))
        ([] @ [] @ [] @ [0, ?E + 1] @
         concat (map (\<lambda>i. discont_indices ?E (?E + 1) (int i)) [0..<length algorithms]) @ [])"
    for a b rows h w nm
    by (intro tracks_bind L) (simp_all add: tracks_def split: sum.splits)
  show ?thesis
    using False T
    by (simp add: plot_discont_overview_def discont_all_indices_def Let_def split_def
        py_truediv_def entries_per_row_def
        del: bind_emit bind_ret bind_lift_Inl bind_pair_Inl bind_pair_Inr seq.simps)
qed

lemma median_inner_state:
  assumes "for_loop (median_algo_body C scene cols s gt m al ac fs h w) xs L = (t, Inr L')"
  shows "idx_a L' = (if xs = [] then idx_a L else Some (fst (last xs)))"
proof (cases "xs = []")
  case True
  then show ?thesis using assms by (simp add: ret_def)
next
  case False
  from for_loop_Inr_last [OF assms False] obtain s0 t0 where
    b: "median_algo_body C scene cols s gt m al ac fs h w s0 (last xs) = (t0, Inr L')" by blast
  obtain i a where x: "last xs = (i, a)" by (cases "last xs")
  show ?thesis using median_algo_body_state [OF b [unfolded x]] x False by simp
qed

lemma median_scene_body_tracks:
  assumes inv: "algorithms = [] \<longrightarrow> idx_a L = None"
  shows "tracks (median_scene_body C algorithms cols n with_gt_row fs h w L (k, s))
           (median_scene_indices cols n (length algorithms) with_gt_row k) \<and>
         (\<forall>t L'. median_scene_body C algorithms cols n with_gt_row fs h w L (k, s) = (t, Inr L') \<longrightarrow>
            (algorithms = [] \<longrightarrow> idx_a L' = None))"
proof (cases "get_algo_result C s (PerPixMedianDiff C)")
  case (Inl e)
  then show ?thesis by (simp add: median_scene_body_def tracks_def)
next
  case (Inr m)
  let ?inner = "median_algo_body C s cols k (get_gt s) m (k = 0) (k = n - 1) fs h w"
  let ?L = "L\<lparr>scene_var := Some s\<rparr>"
  let ?ks = "concat (map (\<lambda>i. median_algo_indices cols k (k = n - 1) (int i)) [0..<length algorithms])"
  have "tracks (for_loop ?inner (py_enumerate algorithms) ?L)
          (concat (map (\<lambda>x. median_algo_indices cols k (k = n - 1) (fst x)) (py_enumerate algorithms)))"
  proof (rule tracks_for_loop [where I = "\<lambda>_. True"])
    fix s' :: locals and x :: "int \<times> algorithm"
    show "tracks (?inner s' x) (median_algo_indices cols k (k = n - 1) (fst x)) \<and>
          (\<forall>t s''. ?inner s' x = (t, Inr s'') \<longrightarrow> True)"
      using median_algo_body_tracks by (cases x) simp
  qed simp
  then have T: "tracks (for_loop ?inner (py_enumerate algorithms) ?L) ?ks"
    by (simp add: map_fst_py_enumerate)
  obtain t1 r1 where l: "for_loop ?inner (py_enumerate algorithms) ?L = (t1, r1)"
    by (cases "for_loop ?inner (py_enumerate algorithms) ?L")
  show ?thesis
  proof (cases r1)
    case (Inl e)
    then show ?thesis using T l Inr
      by (simp add: median_scene_body_def Let_def tracks_def median_scene_indices_def)
  next
    case r: (Inr L1)
    have t1: "grid_indices t1 = ?ks" using T l r by (simp add: tracks_def)
    have st: "idx_a L1 = (if py_enumerate algorithms = [] then idx_a ?L
                          else Some (fst (last (py_enumerate algorithms))))"
      using median_inner_state [OF l [unfolded r]] .
    show ?thesis
    proof (cases with_gt_row)
      case False
      then show ?thesis using l r t1 st Inr inv
        by (simp add: median_scene_body_def Let_def tracks_def median_scene_indices_def)
    next
      case True
      let ?G = "median_gt_row s cols k (get_gt s) m (k = 0) (k = n - 1) fs h w L1"
      have B: "median_scene_body C algorithms cols n with_gt_row fs h w L (k, s) =
                 (t1 @ fst ?G, snd ?G)"
        using l r Inr True by (simp add: median_scene_body_def Let_def)
      show ?thesis
      proof (cases "algorithms = []")
        case e: True
        then have "idx_a L1 = None" using st inv by simp
        then have "?G = ([], Inl UnboundLocalError)" by (rule median_gt_row_unbound)
        then show ?thesis unfolding B using t1 e
          by (simp add: tracks_def median_scene_indices_def)
      next
        case ne: False
        then have "idx_a L1 = Some (int (length algorithms) - 1)"
          using st last_py_enumerate [OF ne] by (cases algorithms) (simp_all add: py_enumerate_Cons)
        from median_gt_row_tracks [OF this]
        have G: "tracks ?G (median_gt_indices cols k (k = n - 1) (int (length algorithms)))"
          by simp
        show ?thesis unfolding B using t1 True ne G
          by (cases "snd ?G") (simp_all add: tracks_def median_scene_indices_def)
      qed
    qed
  qed
qed

lemma median_comparisons_tracks:
  "tracks (plot_median_comparisons C scenes algorithms subdir with_gt_row fs)
     (median_all_indices (length scenes) (length algorithms) with_gt_row)"
proof -
  let ?cols = "int (length scenes) * 3 + 1"
  have L: "tracks (for_loop (median_scene_body C algorithms ?cols (int (length scenes)) with_gt_row fs h w)
                    (py_enumerate scenes) \<lparr>idx_a = None, scene_var = None\<rparr>)
             (median_all_indices (length scenes) (length algorithms) with_gt_row)" for h w
  proof -
    have "tracks (for_loop (median_scene_body C algorithms ?cols (int (length scenes)) with_gt_row fs h w)
                    (py_enumerate scenes) \<lparr>idx_a = None, scene_var = None\<rparr>)
            (concat (map (\<lambda>x. median_scene_indices ?cols (int (length scenes)) (length algorithms)
                                  with_gt_row (fst x)) (py_enumerate scenes)))"
    proof (rule tracks_for_loop [where I = "\<lambda>L. algorithms = [] \<longrightarrow> idx_a L = None"])
      fix L :: locals and x :: "int \<times> scene"
      assume inv: "algorithms = [] \<longrightarrow> idx_a L = None"
      obtain a b where x: "x = (a, b)" by (cases x)
      show "tracks (median_scene_body C algorithms ?cols (int (length scenes)) with_gt_row fs h w L x)
              (median_scene_indices ?cols (int (length scenes)) (length algorithms) with_gt_row (fst x)) \<and>
            (\<forall>t s'. median_scene_body C algorithms ?cols (int (length scenes)) with_gt_row fs h w L x =
                (t, Inr s') \<longrightarrow> (algorithms = [] \<longrightarrow> idx_a s' = None))"
        unfolding x fst_conv by (rule median_scene_body_tracks [OF inv])
    qed simp
    then show ?thesis by (simp add: map_fst_py_enumerate median_all_indices_def)
  qed
  have T: "tracks (bind (emit (Figure a b)) (\<lambda>_.
          bind (lift (py_index scenes 0)) (\<lambda>scene0.
          bind (emit (PrepareGridWithColorbar rows ?cols scene0)) (\<lambda>_.
          bind (for_loop (median_scene_body C algorithms ?cols (int (length scenes)) with_gt_row fs
                            (h scene0) (w scene0))
                  (py_enumerate scenes) \<lparr>idx_a = None, scene_var = None\<rparr>) (\<lambda>L.
          bind (lift (py_local (scene_var L))) (\<lambda>scene.
          emit (SaveTightFigure (''median_comparison_'' @ get_category scene) subdir True True
                  (2 / 100) 0 None)))))))
        ([] @ [] @ [] @ median_all_indices (length scenes) (length algorithms) with_gt_row @ [] @ [])"
    for a b rows h w
    by (intro tracks_bind L) (simp_all add: tracks_def split: sum.splits)
  from T [of _ _ _ "\<lambda>s. fst (colorbar_size C (int (length algorithms) + (if with_gt_row then 1 else 0)) ?cols s) * (8 / 10)"
      "\<lambda>s. snd (colorbar_size C (int (length algorithms) + (if with_gt_row then 1 else 0)) ?cols s)"]
  show ?thesis
    by (simp add: plot_median_comparisons_def Let_def split_def
        del: bind_emit bind_ret bind_lift_Inl bind_pair_Inl bind_pair_Inr seq.simps)
qed

lemma median_cell:
  fixes S s i k :: int
  assumes s: "0 \<le> s" "s < S"
    and k: "k \<in> set (median_algo_indices (S * 3 + 1) s (s = S - 1) i) \<or>
            k \<in> set (median_gt_indices (S * 3 + 1) s (s = S - 1) i)"
  shows "k div (S * 3 + 1) = i \<and> median_scene_of S k = s \<and>
         i * (S * 3 + 1) \<le> k \<and> k < (i + 1) * (S * 3 + 1)"
proof -
  from k s obtain c where c: "k = i * (S * 3 + 1) + c" "0 \<le> c" "c < S * 3 + 1"
    and sc: "(if c = 3 * S then S - 1 else c div 3) = s"
    by (auto simp: median_algo_indices_def median_gt_indices_def split: if_splits)
  have "k div (S * 3 + 1) = i" "k mod (S * 3 + 1) = c"
    unfolding c(1) using c(2,3) by (simp_all add: cell_div_mod)
  then show ?thesis using sc c by (simp add: median_scene_of_def algebra_simps)
qed

lemma median_scene_indices_distinct:
  fixes S s :: int
  assumes s: "0 \<le> s" "s < S"
  shows "distinct (median_scene_indices (S * 3 + 1) S A with_gt_row s)"
proof -
  let ?cols = "S * 3 + 1"
  have d: "distinct (concat (map (\<lambda>i. median_algo_indices ?cols s (s = S - 1) (int i)) [0..<A]))"
  proof (rule distinct_concat_by_key [where key = "\<lambda>k. k div ?cols" and g = int])
    show "distinct (median_algo_indices ?cols s (s = S - 1) (int i))" for i
      by (simp add: median_algo_indices_def)
    show "k div ?cols = int i" if "k \<in> set (median_algo_indices ?cols s (s = S - 1) (int i))" for i k
      using median_cell [OF s, of k "int i"] that by simp
    show "distinct (map int [0..<A])" by (simp add: distinct_map inj_on_def)
  qed
  have g: "distinct (median_gt_indices ?cols s (s = S - 1) (int A))"
    by (simp add: median_gt_indices_def)
  have "k \<notin> set (median_gt_indices ?cols s (s = S - 1) (int A))"
    if "k \<in> set (concat (map (\<lambda>i. median_algo_indices ?cols s (s = S - 1) (int i)) [0..<A]))" for k
  proof
    assume a: "k \<in> set (median_gt_indices ?cols s (s = S - 1) (int A))"
    from that obtain i where i: "i < A" "k \<in> set (median_algo_indices ?cols s (s = S - 1) (int i))"
      by auto
    have "k div ?cols = int i" using median_cell [OF s, of k "int i"] i(2) by simp
    moreover have "k div ?cols = int A" using median_cell [OF s, of k "int A"] a by simp
    ultimately show False using i(1) by simp
  qed
  then show ?thesis using d g by (auto simp: median_scene_indices_def)
qed

lemma median_scene_indices_cell:
  fixes S s :: int
  assumes s: "0 \<le> s" "s < S" and k: "k \<in> set (median_scene_indices (S * 3 + 1) S A with_gt_row s)"
  shows "median_scene_of S k = s \<and> 0 \<le> k \<and>
         k < (int A + (if with_gt_row then 1 else 0)) * (S * 3 + 1)"
proof -
  have main: "median_scene_of S k = s \<and> 0 \<le> k \<and>
         k < (int A + (if with_gt_row then 1 else 0)) * (S * 3 + 1)"
    if i: "0 \<le> i" "i + 1 \<le> int A + (if with_gt_row then 1 else 0)"
      and m: "k \<in> set (median_algo_indices (S * 3 + 1) s (s = S - 1) i) \<or>
              k \<in> set (median_gt_indices (S * 3 + 1) s (s = S - 1) i)" for i
  proof -
    from median_cell [OF s m] have c: "median_scene_of S k = s"
      "i * (S * 3 + 1) \<le> k" "k < (i + 1) * (S * 3 + 1)" by simp_all
    have "0 \<le> i * (S * 3 + 1)" using i(1) s by simp
    moreover have "(i + 1) * (S * 3 + 1) \<le> (int A + (if with_gt_row then 1 else 0)) * (S * 3 + 1)"
      using i(2) s by (intro mult_right_mono) simp_all
    ultimately show ?thesis using c by linarith
  qed
  from k consider (algo) j where "j < A" "k \<in> set (median_algo_indices (S * 3 + 1) s (s = S - 1) (int j))"
    | (gt) "with_gt_row" "k \<in> set (median_gt_indices (S * 3 + 1) s (s = S - 1) (int A))"
    by (auto simp: median_scene_indices_def split: if_splits)
  then show ?thesis
  proof cases
    case algo
    then show ?thesis using main [of "int j"] by simp
  next
    case gt
    then show ?thesis using main [of "int A"] by simp
  qed
qed

lemma median_all_indices_distinct: "distinct (median_all_indices S A with_gt_row)"
  unfolding median_all_indices_def
proof (rule distinct_concat_by_key [where key = "median_scene_of (int S)" and g = int])
  fix s assume "s \<in> set [0..<S]"
  then have s: "0 \<le> int s" "int s < int S" by simp_all
  show "distinct (median_scene_indices (int S * 3 + 1) (int S) A with_gt_row (int s))"
    using median_scene_indices_distinct [OF s] .
  show "median_scene_of (int S) k = int s"
    if "k \<in> set (median_scene_indices (int S * 3 + 1) (int S) A with_gt_row (int s))" for k
    using median_scene_indices_cell [OF s that] by simp
next
  show "distinct (map int [0..<S])" by (simp add: distinct_map inj_on_def)
qed

lemma median_all_indices_range:
  assumes "k \<in> set (median_all_indices S A with_gt_row)"
  shows "0 \<le> k \<and> k < (int A + (if with_gt_row then 1 else 0)) * (int S * 3 + 1)"
proof -
  from assms obtain s where s: "s < S"
    "k \<in> set (median_scene_indices (int S * 3 + 1) (int S) A with_gt_row (int s))"
    by (auto simp: median_all_indices_def)
  then have "0 \<le> int s" "int s < int S" by simp_all
  from median_scene_indices_cell [OF this s(2)] show ?thesis by simp
qed

lemma discont_body_grid:
  "list_all (\<lambda>e. grid_size e = []) (fst (discont_body C scene nv E cols fs h w m xmin ymin ww u x))"
  unfolding discont_body_def Let_def
  by (cases x) (auto intro!: fst_bind_all fst_seq_all fst_when_do_all)

lemma median_algo_body_grid:
  "list_all (\<lambda>e. grid_size e = []) (fst (median_algo_body C scene cols idx_s gt m al ac fs h w L x))"
  unfolding median_algo_body_def Let_def
  by (cases x) (auto intro!: fst_bind_all fst_seq_all fst_when_do_all)

lemma median_gt_row_grid:
  "list_all (\<lambda>e. grid_size e = []) (fst (median_gt_row scene cols idx_s gt m al ac fs h w L))"
  unfolding median_gt_row_def Let_def
  by (auto intro!: fst_bind_all fst_seq_all fst_when_do_all)

lemma median_scene_body_grid:
  "list_all (\<lambda>e. grid_size e = []) (fst (median_scene_body C algorithms cols n with_gt_row fs h w L x))"
  unfolding median_scene_body_def Let_def
  by (cases x)
     (auto intro!: fst_bind_all fst_for_loop_all median_algo_body_grid median_gt_row_grid)

lemma list_all_weaken: "list_all P xs \<Longrightarrow> (\<And>x. P x \<Longrightarrow> Q x) \<Longrightarrow> list_all Q xs"
  by (auto simp: list_all_iff)

lemma discont_overview_grid:
  "list_all (same_grid (2 * n_rows) (entries_per_row (length algorithms) n_rows + 1))
     (fst (plot_discont_overview C algorithms scene n_rows fs subdir xmin ymin ww))"
proof (cases "n_rows = 0")
  case True
  then show ?thesis by (simp add: plot_discont_overview_def py_truediv_def)
next
  case False
  let ?E = "entries_per_row (length algorithms) n_rows"
  have L: "list_all (same_grid (2 * n_rows) (?E + 1))
             (fst (for_loop (discont_body C scene 2 ?E (?E + 1) fs h w m xmin ymin ww)
                    (py_enumerate algorithms) ()))" for h w m
    by (rule list_all_weaken [OF fst_for_loop_all [OF discont_body_grid]]) (simp add: same_grid_def)
  have T: "list_all (same_grid (2 * n_rows) (?E + 1)) (fst (bind (emit (Figure a b)) (\<lambda>_.
          bind (emit (PrepareGridWithColorbar (2 * n_rows) (?E + 1) scene)) (\<lambda>_.
          bind (lift (get_algo_result C scene (PerPixMedianDiff C))) (\<lambda>median_result.
          bind (seq [
            emit (Subplot 0),
            emit (Imshow (Colour (slice2 (get_center_view scene) ymin (ymin + ww) xmin (xmin + ww))) NoArgs),
            emit (Title ''Center View'' fs),
            emit (Ylabel ''DispMap'' (Some fs)),
            emit (Subplot (?E + 1)),
            emit (Ylabel ''MedianDiff'' (Some fs))]) (\<lambda>_.
          bind (for_loop (discont_body C scene 2 ?E (?E + 1) fs h w median_result xmin ymin ww)
                 (py_enumerate algorithms) ()) (\<lambda>_.
          emit (SaveTightFigure nm subdir True True (3 / 100) (3 / 100) (Some 100)))))))))"
    for a b h w nm
    by (intro fst_bind_all L) (simp_all add: same_grid_def)
  show ?thesis
    using False T
    by (simp add: plot_discont_overview_def Let_def split_def
        py_truediv_def entries_per_row_def
        del: bind_emit bind_ret bind_lift_Inl bind_pair_Inl bind_pair_Inr seq.simps)
qed

lemma median_comparisons_grid:
  "list_all (same_grid (int (length algorithms) + (if with_gt_row then 1 else 0))
               (int (length scenes) * 3 + 1))
     (fst (plot_median_comparisons C scenes algorithms subdir with_gt_row fs))"
proof -
  let ?cols = "int (length scenes) * 3 + 1"
  let ?rows = "int (length algorithms) + (if with_gt_row then 1 else 0)"
  have L: "list_all (same_grid ?rows ?cols)
             (fst (for_loop (median_scene_body C algorithms ?cols (int (length scenes)) with_gt_row fs h w)
                    (py_enumerate scenes) \<lparr>idx_a = None, scene_var = None\<rparr>))" for h w
    by (rule list_all_weaken [OF fst_for_loop_all [OF median_scene_body_grid]]) (simp add: same_grid_def)
  have T: "list_all (same_grid ?rows ?cols) (fst (bind (emit (Figure a b)) (\<lambda>_.
          bind (lift (py_index scenes 0)) (\<lambda>scene0.
          bind (emit (PrepareGridWithColorbar ?rows ?cols scene0)) (\<lambda>_.
          bind (for_loop (median_scene_body C algorithms ?cols (int (length scenes)) with_gt_row fs
                            (h scene0) (w scene0))
                  (py_enumerate scenes) \<lparr>idx_a = None, scene_var = None\<rparr>) (\<lambda>L.
          bind (lift (py_local (scene_var L))) (\<lambda>scene.
          emit (SaveTightFigure (''median_comparison_'' @ get_category scene) subdir True True
                  (2 / 100) 0 None))))))))"
    for a b h w
    by (intro fst_bind_all L) (simp_all add: same_grid_def)
  from T [of _ _ "\<lambda>s. fst (colorbar_size C ?rows ?cols s) * (8 / 10)"
      "\<lambda>s. snd (colorbar_size C ?rows ?cols s)"]
  show ?thesis
    by (simp add: plot_median_comparisons_def Let_def split_def
        del: bind_emit bind_ret bind_lift_Inl bind_pair_Inl bind_pair_Inr seq.simps)
qed

text \<open>
  C3: for every list of algorithms, scene and \<open>n_rows >= 1\<close>, the indices
  \<open>plot_discont_overview\<close> computes for its panels and colorbars, with
  \<open>idx_row = (idx / n_entries_per_row) * n_vis_types\<close> an integer division, are pairwise
  different integers of \<open>[0, rows * cols)\<close>, where \<open>rows\<close> and \<open>cols\<close> are those of the
  grid it prepares; and the same holds for \<open>plot_median_comparisons\<close> on every input. It
  holds of a run that raises as well, for the panels it reached.
\<close>

theorem subplot_indices_tile_the_grid:
  assumes "1 \<le> n_rows"
  shows "distinct (grid_indices (fst (plot_discont_overview C algos scene n_rows fs subdir xmin ymin ww))) \<and>
         (\<forall>k \<in> set (grid_indices (fst (plot_discont_overview C algos scene n_rows fs subdir xmin ymin ww))).
            0 \<le> k \<and> k < 2 * n_rows * (entries_per_row (length algos) n_rows + 1)) \<and>
         list_all (same_grid (2 * n_rows) (entries_per_row (length algos) n_rows + 1))
           (fst (plot_discont_overview C algos scene n_rows fs subdir xmin ymin ww)) \<and>
         distinct (grid_indices (fst (plot_median_comparisons C scenes algorithms subdir' with_gt_row fs'))) \<and>
         (\<forall>k \<in> set (grid_indices (fst (plot_median_comparisons C scenes algorithms subdir' with_gt_row fs'))).
            0 \<le> k \<and>
            k < (int (length algorithms) + (if with_gt_row then 1 else 0)) * (int (length scenes) * 3 + 1)) \<and>
         list_all (same_grid (int (length algorithms) + (if with_gt_row then 1 else 0))
                     (int (length scenes) * 3 + 1))
           (fst (plot_median_comparisons C scenes algorithms subdir' with_gt_row fs'))"
proof -
  let ?D = "plot_discont_overview C algos scene n_rows fs subdir xmin ymin ww"
  let ?M = "plot_median_comparisons C scenes algorithms subdir' with_gt_row fs'"
  have d: "tracks ?D (discont_all_indices (length algos) n_rows)" by (rule discont_overview_tracks)
  have m: "tracks ?M (median_all_indices (length scenes) (length algorithms) with_gt_row)"
    by (rule median_comparisons_tracks)
  have "distinct (grid_indices (fst ?D))"
    using tracks_distinct [OF d discont_all_indices_distinct [OF assms]] .
  moreover have "\<forall>k \<in> set (grid_indices (fst ?D)).
      0 \<le> k \<and> k < 2 * n_rows * (entries_per_row (length algos) n_rows + 1)"
    using tracks_subset [OF d] discont_all_indices_range [OF assms] by blast
  moreover have "distinct (grid_indices (fst ?M))"
    using tracks_distinct [OF m median_all_indices_distinct] .
  moreover have "\<forall>k \<in> set (grid_indices (fst ?M)). 0 \<le> k \<and>
      k < (int (length algorithms) + (if with_gt_row then 1 else 0)) * (int (length scenes) * 3 + 1)"
    using tracks_subset [OF m] median_all_indices_range by blast
  ultimately show ?thesis
    using discont_overview_grid median_comparisons_grid by blast
qed

theorem subplot_indices_tile_the_grid_witness:
  "(1 :: int) \<le> 2 \<and>
   grid_indices (fst (plot_discont_overview example_collab [epi1, lf, epi1, lf, epi1, lf, epi1]
                        cotton 2 15 ''overview'' 0 0 1)) =
     [0, 5, 1, 6, 2, 7, 3, 4, 8, 9, 10, 15, 11, 16, 12, 17, 13, 14, 18, 19] \<and>
   distinct (grid_indices (fst (plot_discont_overview example_collab
                                  [epi1, lf, epi1, lf, epi1, lf, epi1]
                                  cotton 2 15 ''overview'' 0 0 1))) \<and>
   2 * 2 * (entries_per_row (length [epi1, lf, epi1, lf, epi1, lf, epi1]) 2 + 1) = 20 \<and>
   grid_indices (fst (plot_median_comparisons example_collab [cotton, bedroom] [epi1, lf]
                        ''figs'' True 12)) =
     [0, 1, 2, 7, 8, 9, 14, 15, 3, 4, 5, 6, 10, 11, 12, 13, 17, 18, 20] \<and>
   distinct (grid_indices (fst (plot_median_comparisons example_collab [cotton, bedroom]
                                  [epi1, lf] ''figs'' True 12)))"
proof -
  have a: "grid_indices (fst (plot_discont_overview example_collab
                                [epi1, lf, epi1, lf, epi1, lf, epi1]
                                cotton 2 15 ''overview'' 0 0 1)) =
           [0, 5, 1, 6, 2, 7, 3, 4, 8, 9, 10, 15, 11, 16, 12, 17, 13, 14, 18, 19]"
    by code_simp
  have b: "grid_indices (fst (plot_median_comparisons example_collab [cotton, bedroom] [epi1, lf]
                                ''figs'' True 12)) =
           [0, 1, 2, 7, 8, 9, 14, 15, 3, 4, 5, 6, 10, 11, 12, 13, 17, 18, 20]"
    by code_simp
  have e: "entries_per_row (length [epi1, lf, epi1, lf, epi1, lf, epi1]) 2 = 4"
    by code_simp
  have n: "(1 :: int) \<le> 2" by simp
  from subplot_indices_tile_the_grid [OF n, of example_collab
      "[epi1, lf, epi1, lf, epi1, lf, epi1]" cotton 15 "''overview''" 0 0 1
      "[cotton, bedroom]" "[epi1, lf]" "''figs''" True 12]
  show ?thesis using a b e by simp
qed

subsection \<open>plot\_scene\_overview\<close>

lemma scene_overview_body_eq:
  "scene_overview_body C cols fs g (k, s) =
     (scene_overview_events C cols fs g k s,
      Inr (if hidden_gt s then snd (pixelize C g (get_gt s) (1 / 2)) else g))"
  by (simp add: scene_overview_body_def scene_overview_events_def Let_def split_def)

lemma pixelize_calls_simps [simp]:
  "pixelize_calls [] = []"
  "pixelize_calls (e # t) = pixelized e @ pixelize_calls t"
  "pixelize_calls (a @ b) = pixelize_calls a @ pixelize_calls b"
  by (simp_all add: pixelize_calls_def)

lemma scene_overview_loop:
  "\<exists>lt g'. for_loop (scene_overview_body C cols fs) xs g = (lt, Inr g') \<and>
     pixelize_calls lt = map (\<lambda>x. get_gt (snd x)) (filter (\<lambda>x. hidden_gt (snd x)) xs) \<and>
     grid_indices lt = concat (map (\<lambda>x. [fst x, cols + fst x]) xs) \<and>
     (list_all (\<lambda>x. \<not> hidden_gt (snd x)) xs \<longrightarrow>
        g' = g \<and> lt = concat (map (\<lambda>x. scene_overview_events C cols fs [] (fst x) (snd x)) xs))"
proof (induction xs arbitrary: g)
  case Nil
  then show ?case by (simp add: ret_def)
next
  case (Cons x xs)
  obtain k s where x: "x = (k, s)" by (cases x)
  let ?g1 = "if hidden_gt s then snd (pixelize C g (get_gt s) (1 / 2)) else g"
  from Cons.IH [of ?g1] obtain lt g' where
    l: "for_loop (scene_overview_body C cols fs) xs ?g1 = (lt, Inr g')"
    and p: "pixelize_calls lt = map (\<lambda>x. get_gt (snd x)) (filter (\<lambda>x. hidden_gt (snd x)) xs)"
    and i: "grid_indices lt = concat (map (\<lambda>x. [fst x, cols + fst x]) xs)"
    and n: "list_all (\<lambda>x. \<not> hidden_gt (snd x)) xs \<longrightarrow>
        g' = ?g1 \<and> lt = concat (map (\<lambda>x. scene_overview_events C cols fs [] (fst x) (snd x)) xs)"
    by blast
  have "for_loop (scene_overview_body C cols fs) (x # xs) g =
          (scene_overview_events C cols fs g k s @ lt, Inr g')"
    using l by (simp add: x scene_overview_body_eq)
  moreover have "pixelize_calls (scene_overview_events C cols fs g k s) =
      (if hidden_gt s then [get_gt s] else [])"
    by (simp add: scene_overview_events_def)
  moreover have "grid_indices (scene_overview_events C cols fs g k s) = [k, cols + k]"
    by (simp add: scene_overview_events_def)
  moreover have "scene_overview_events C cols fs g k s = scene_overview_events C cols fs [] k s"
    if "\<not> hidden_gt s"
    using that by (simp add: scene_overview_events_def)
  ultimately show ?case using p i n x by auto
qed

lemma map_snd_py_enumerate: "map snd (py_enumerate xs) = xs"
  by (simp add: py_enumerate_def)

lemma filter_map_snd:
  "map (\<lambda>x. f (snd x)) (filter (\<lambda>x. P (snd x)) xs) = map f (filter P (map snd xs))"
  by (induction xs) simp_all

lemma scene_overview_run:
  "\<exists>lt g'. for_loop (scene_overview_body C (int (length scenes)) fs) (py_enumerate scenes) g = (lt, Inr g') \<and>
     plot_scene_overview C g scenes subdir fs =
       (Figure (216 / 10) 4 # PrepareGrid 2 (int (length scenes)) # lt @ scene_overview_footer subdir fs,
        Inr g') \<and>
     pixelize_calls lt = map get_gt (filter hidden_gt scenes) \<and>
     grid_indices lt = concat (map (\<lambda>i. [int i, int (length scenes) + int i]) [0..<length scenes]) \<and>
     (list_all (\<lambda>s. \<not> hidden_gt s) scenes \<longrightarrow> g' = g \<and>
        lt = concat (map (\<lambda>x. scene_overview_events C (int (length scenes)) fs [] (fst x) (snd x))
                       (py_enumerate scenes)))"
proof -
  from scene_overview_loop [of C "int (length scenes)" fs "py_enumerate scenes" g]
  obtain lt g' where
    l: "for_loop (scene_overview_body C (int (length scenes)) fs) (py_enumerate scenes) g = (lt, Inr g')"
    and p: "pixelize_calls lt = map (\<lambda>x. get_gt (snd x)) (filter (\<lambda>x. hidden_gt (snd x)) (py_enumerate scenes))"
    and i: "grid_indices lt = concat (map (\<lambda>x. [fst x, int (length scenes) + fst x]) (py_enumerate scenes))"
    and n: "list_all (\<lambda>x. \<not> hidden_gt (snd x)) (py_enumerate scenes) \<longrightarrow>
        g' = g \<and> lt = concat (map (\<lambda>x. scene_overview_events C (int (length scenes)) fs [] (fst x) (snd x))
                                (py_enumerate scenes))"
    by blast
  have r: "plot_scene_overview C g scenes subdir fs =
       (Figure (216 / 10) 4 # PrepareGrid 2 (int (length scenes)) # lt @ scene_overview_footer subdir fs,
        Inr g')"
    using l by (simp add: plot_scene_overview_def scene_overview_footer_def Let_def)
  have p': "pixelize_calls lt = map get_gt (filter hidden_gt scenes)"
    using p by (simp add: filter_map_snd map_snd_py_enumerate)
  have i': "grid_indices lt = concat (map (\<lambda>i. [int i, int (length scenes) + int i]) [0..<length scenes])"
    using i map_fst_py_enumerate [of "\<lambda>k. [k, int (length scenes) + k]" scenes] by simp
  have "list_all (\<lambda>x. \<not> hidden_gt (snd x)) (py_enumerate scenes) = list_all (\<lambda>s. \<not> hidden_gt s) scenes"
    using map_snd_py_enumerate [of scenes] by (metis (mono_tags, lifting) list.pred_map comp_def list_all_cong)
  then show ?thesis using l r p' i' n by auto
qed

lemma scene_overview_panels:
  assumes i: "i < length scenes"
  shows "\<exists>g0. sublist (scene_overview_events C (int (length scenes)) fs g0 (int i) (scenes ! i))
                 (fst (plot_scene_overview C g scenes subdir fs))"
proof -
  from scene_overview_run [of C scenes fs g subdir] obtain lt g' where
    l: "for_loop (scene_overview_body C (int (length scenes)) fs) (py_enumerate scenes) g = (lt, Inr g')"
    and r: "plot_scene_overview C g scenes subdir fs =
       (Figure (216 / 10) 4 # PrepareGrid 2 (int (length scenes)) # lt @ scene_overview_footer subdir fs,
        Inr g')"
    by blast
  have "(int i, scenes ! i) \<in> set (py_enumerate scenes)" using i by (simp add: in_py_enumerate)
  from for_loop_Inr_iter [OF l this] obtain g0 t0 g1 where
    b: "scene_overview_body C (int (length scenes)) fs g0 (int i, scenes ! i) = (t0, Inr g1)"
    and s: "sublist t0 lt" by blast
  have "t0 = scene_overview_events C (int (length scenes)) fs g0 (int i) (scenes ! i)"
    using b by (simp add: scene_overview_body_eq)
  moreover have "sublist lt (fst (plot_scene_overview C g scenes subdir fs))"
    by (simp add: r sublist_Cons_right)
  ultimately show ?thesis using s by (meson sublist_trans)
qed

lemma sublist_appendD:
  "sublist (a @ b) t \<Longrightarrow> sublist a t \<and> sublist b t"
  by (metis sublist_append_leftI sublist_append_rightI sublist_trans)



text \<open>
  C2: \<open>plot_scene_overview\<close> passes to \<open>plotting.pixelize\<close> the ground truths of the
  hidden scenes of its list, and nothing else. In the ground-truth cell of a hidden
  scene it shows what \<open>pixelize\<close> returned for that ground truth with
  \<open>noise_factor=0.5\<close>; in the ground-truth cell of any other scene it shows the ground
  truth itself.
\<close>

theorem hidden_ground_truth_is_obscured:
  "pixelize_calls (fst (plot_scene_overview C g scenes subdir fs)) = map get_gt (filter hidden_gt scenes) \<and>
   (\<forall>i < length scenes.
      if hidden_gt (scenes ! i)
      then \<exists>g0. sublist [Subplot (int (length scenes) + int i),
                         Pixelize (get_gt (scenes ! i)) (1 / 2),
                         Imshow (Gray (fst (pixelize C g0 (get_gt (scenes ! i)) (1 / 2))))
                           (DispMapArgs (scenes ! i))]
                   (fst (plot_scene_overview C g scenes subdir fs))
      else sublist [Subplot (int (length scenes) + int i),
                    Imshow (Gray (get_gt (scenes ! i))) (DispMapArgs (scenes ! i))]
             (fst (plot_scene_overview C g scenes subdir fs)))"
proof -
  let ?n = "int (length scenes)"
  let ?R = "plot_scene_overview C g scenes subdir fs"
  from scene_overview_run [of C scenes fs g subdir] obtain lt g' where
    r: "?R = (Figure (216 / 10) 4 # PrepareGrid 2 ?n # lt @ scene_overview_footer subdir fs, Inr g')"
    and p: "pixelize_calls lt = map get_gt (filter hidden_gt scenes)"
    by blast
  have a: "pixelize_calls (fst ?R) = map get_gt (filter hidden_gt scenes)"
    using p by (simp add: r scene_overview_footer_def)
  have b: "if hidden_gt (scenes ! i)
      then \<exists>g0. sublist [Subplot (?n + int i), Pixelize (get_gt (scenes ! i)) (1 / 2),
                         Imshow (Gray (fst (pixelize C g0 (get_gt (scenes ! i)) (1 / 2))))
                           (DispMapArgs (scenes ! i))] (fst ?R)
      else sublist [Subplot (?n + int i),
                    Imshow (Gray (get_gt (scenes ! i))) (DispMapArgs (scenes ! i))] (fst ?R)"
    if i: "i < length scenes" for i
  proof -
    from scene_overview_panels [OF i, of C fs g subdir] obtain g0 where
      s: "sublist (scene_overview_events C ?n fs g0 (int i) (scenes ! i)) (fst ?R)" by blast
    let ?s = "scenes ! i"
    have e: "scene_overview_events C ?n fs g0 (int i) ?s =
        [Subplot (int i), Imshow (Colour (get_center_view ?s)) NoArgs,
         Title ([CHR 0x0A, CHR 0x0A] @ get_display_name ?s) fs] @
        (Subplot (?n + int i) #
          (if hidden_gt ?s
           then [Pixelize (get_gt ?s) (1 / 2),
                 Imshow (Gray (fst (pixelize C g0 (get_gt ?s) (1 / 2)))) (DispMapArgs ?s)]
           else [Imshow (Gray (get_gt ?s)) (DispMapArgs ?s)]))"
      by (simp add: scene_overview_events_def)
    have "sublist (Subplot (?n + int i) #
          (if hidden_gt ?s
           then [Pixelize (get_gt ?s) (1 / 2),
                 Imshow (Gray (fst (pixelize C g0 (get_gt ?s) (1 / 2)))) (DispMapArgs ?s)]
           else [Imshow (Gray (get_gt ?s)) (DispMapArgs ?s)])) (fst ?R)"
      using s sublist_appendD unfolding e by blast
    then show ?thesis by (cases "hidden_gt ?s") auto
  qed
  show ?thesis using a b by blast
qed

theorem hidden_ground_truth_is_obscured_witness:
  "(0 :: nat) < length [cotton, bedroom] \<and> (1 :: nat) < length [cotton, bedroom] \<and>
   pixelize_calls (fst (plot_scene_overview example_collab [7] [cotton, bedroom] ''overview'' 16)) =
     [[[5, 6], [7, 8]]] \<and>
   sublist [Subplot 2, Imshow (Gray [[1, 2], [3, 4]]) (DispMapArgs cotton)]
     (fst (plot_scene_overview example_collab [7] [cotton, bedroom] ''overview'' 16)) \<and>
   sublist [Subplot 3, Pixelize [[5, 6], [7, 8]] (1 / 2),
            Imshow (Gray [[7, 8], [5, 6]]) (DispMapArgs bedroom)]
     (fst (plot_scene_overview example_collab [7] [cotton, bedroom] ''overview'' 16))"
proof -
  note t = hidden_ground_truth_is_obscured
    [of example_collab "[7]" "[cotton, bedroom]" "''overview''" 16]
  have l: "(0 :: nat) < length [cotton, bedroom]" "(1 :: nat) < length [cotton, bedroom]"
    by simp_all
  from t l(1) have
    "if hidden_gt ([cotton, bedroom] ! 0)
     then \<exists>g0. sublist [Subplot (int (length [cotton, bedroom]) + int 0),
                        Pixelize (get_gt ([cotton, bedroom] ! 0)) (1 / 2),
                        Imshow (Gray (fst (pixelize example_collab g0
                                  (get_gt ([cotton, bedroom] ! 0)) (1 / 2))))
                          (DispMapArgs ([cotton, bedroom] ! 0))]
                  (fst (plot_scene_overview example_collab [7] [cotton, bedroom] ''overview'' 16))
     else sublist [Subplot (int (length [cotton, bedroom]) + int 0),
                   Imshow (Gray (get_gt ([cotton, bedroom] ! 0)))
                     (DispMapArgs ([cotton, bedroom] ! 0))]
            (fst (plot_scene_overview example_collab [7] [cotton, bedroom] ''overview'' 16))"
    by blast
  then have a: "sublist [Subplot 2, Imshow (Gray [[1, 2], [3, 4]]) (DispMapArgs cotton)]
     (fst (plot_scene_overview example_collab [7] [cotton, bedroom] ''overview'' 16))"
    by simp
  from t l(2) have
    "if hidden_gt ([cotton, bedroom] ! 1)
     then \<exists>g0. sublist [Subplot (int (length [cotton, bedroom]) + int 1),
                        Pixelize (get_gt ([cotton, bedroom] ! 1)) (1 / 2),
                        Imshow (Gray (fst (pixelize example_collab g0
                                  (get_gt ([cotton, bedroom] ! 1)) (1 / 2))))
                          (DispMapArgs ([cotton, bedroom] ! 1))]
                  (fst (plot_scene_overview example_collab [7] [cotton, bedroom] ''overview'' 16))
     else sublist [Subplot (int (length [cotton, bedroom]) + int 1),
                   Imshow (Gray (get_gt ([cotton, bedroom] ! 1)))
                     (DispMapArgs ([cotton, bedroom] ! 1))]
            (fst (plot_scene_overview example_collab [7] [cotton, bedroom] ''overview'' 16))"
    by blast
  then have b: "sublist [Subplot 3, Pixelize [[5, 6], [7, 8]] (1 / 2),
            Imshow (Gray [[7, 8], [5, 6]]) (DispMapArgs bedroom)]
     (fst (plot_scene_overview example_collab [7] [cotton, bedroom] ''overview'' 16))"
    by simp
  from t have "pixelize_calls (fst (plot_scene_overview example_collab [7] [cotton, bedroom]
                                      ''overview'' 16)) =
               map get_gt (filter hidden_gt [cotton, bedroom])"
    by blast
  then show ?thesis using a b l by simp
qed




subsection \<open>plot\_normals\_explanation\<close>

lemma np_add_bool_union:
  assumes sh: "shape a = shape b" and ra: "is_rect a" and rb: "is_rect b"
  shows "\<exists>m. np_add_bool a b = Inr m \<and> shape m = shape a \<and>
           mask_pixels m = mask_pixels a \<union> mask_pixels b"
proof -
  let ?m = "map (\<lambda>i. map (\<lambda>j. a ! i ! j \<or> b ! i ! j) [0..<snd (shape a)]) [0..<length a]"
  have m: "np_add_bool a b = Inr ?m"
    using np_binop_same_shape [OF sh, of "\<lambda>x y. x \<or> y"] by (simp add: np_add_bool_def)
  have lb: "length b = length a" using sh by (metis fst_shape)
  have la: "length (a ! i) = snd (shape a)" if "i < length a" for i
    using rect_row_length [OF ra that] .
  have lbb: "length (b ! i) = snd (shape a)" if "i < length a" for i
    using rect_row_length [OF rb, of i] that lb sh by simp
  have "mask_pixels ?m = mask_pixels a \<union> mask_pixels b"
    using la lbb lb by (auto simp: mask_pixels_def)
  then show ?thesis
    using m shape_map_map [of "\<lambda>i j. a ! i ! j \<or> b ! i ! j" a] by (intro exI [of _ ?m]) simp
qed

lemma digit_char_digit: "digit_char d \<in> set ''0123456789''"
  unfolding digit_char_def by (rule nth_mem) simp

lemma decimal_digits: "set (decimal n) \<subseteq> set ''0123456789''"
proof (induction n rule: decimal.induct)
  case (1 n)
  show ?case
  proof (cases "n < 10")
    case True
    then show ?thesis using digit_char_digit [of n] by (subst decimal.simps) simp
  next
    case False
    then show ?thesis using 1 digit_char_digit [of "n mod 10"]
      by (subst decimal.simps) simp
  qed
qed

lemma round_half_even_near:
  assumes "0 \<le> y"
  shows "\<bar>real (round_half_even y) - y\<bar> \<le> 1 / 2"
proof -
  let ?f = "nat \<lfloor>y\<rfloor>"
  have rf: "real ?f = of_int \<lfloor>y\<rfloor>" using assms by simp
  then have lo: "real ?f \<le> y" and hi: "y < real ?f + 1" by linarith+
  consider "y - real ?f < 1 / 2" | "y - real ?f > 1 / 2" | "y - real ?f = 1 / 2" by linarith
  then show ?thesis
  proof cases
    case 1
    then have "round_half_even y = ?f" unfolding round_half_even_def Let_def by (simp only: if_True)
    then have e: "real (round_half_even y) = real ?f" by simp
    show ?thesis unfolding abs_le_iff using e lo hi 1 by linarith
  next
    case 2
    then have "\<not> y - real ?f < 1 / 2" by linarith
    then have "round_half_even y = ?f + 1"
      unfolding round_half_even_def Let_def using 2 by (simp only: if_True if_False)
    then have e: "real (round_half_even y) = real ?f + 1" by simp
    show ?thesis unfolding abs_le_iff using e lo hi 2 by linarith
  next
    case 3
    then have "\<not> y - real ?f < 1 / 2" "\<not> y - real ?f > 1 / 2" by linarith+
    then have "round_half_even y = (if even ?f then ?f else ?f + 1)"
      unfolding round_half_even_def Let_def by (simp only: if_False)
    then have "round_half_even y = ?f \<or> round_half_even y = ?f + 1" by presburger
    then have e: "real (round_half_even y) = real ?f \<or> real (round_half_even y) = real ?f + 1"
      by auto
    show ?thesis unfolding abs_le_iff using e lo hi 3 by linarith
  qed
qed

lemma format_0_1f_shape:
  "\<exists>t. format_0_1f x =
          (if x < 0 then ''-'' else []) @ decimal (t div 10) @ [CHR ''.'', digit_char (t mod 10)] \<and>
        \<bar>real t / 10 - \<bar>x\<bar>\<bar> \<le> 1 / 20 \<and>
        set (decimal (t div 10)) \<subseteq> set ''0123456789'' \<and>
        digit_char (t mod 10) \<in> set ''0123456789''"
proof -
  let ?t = "round_half_even (\<bar>x\<bar> * 10)"
  have "\<bar>real ?t - \<bar>x\<bar> * 10\<bar> \<le> 1 / 2" by (rule round_half_even_near) simp
  then have "\<bar>real ?t / 10 - \<bar>x\<bar>\<bar> \<le> 1 / 20" by (simp add: abs_le_iff field_simps)
  then show ?thesis
    using decimal_digits digit_char_digit
    by (intro exI [of _ ?t]) (simp add: format_0_1f_def Let_def)
qed

text \<open>
  C8: when the algorithm has a result and the two evaluation masks are arrays of one
  shape, \<open>plot_normals_explanation\<close> calls \<open>get_score_from_mask\<close> once, on the
  continuous-surface metric, with a mask that selects exactly the pixels either mask
  selects, and titles the error map "Median Angular Error: " followed by the score
  written with one digit after the point, at most 0.05 away from the score.
\<close>

theorem normals_mask_is_union_and_score_has_one_decimal:
  assumes r: "get_algo_result C scene algorithm = Inr r"
    and sh: "shape (get_evaluation_mask C MAEContinSurf scene) =
             shape (get_evaluation_mask C MAEPlanes scene)"
    and r1: "is_rect (get_evaluation_mask C MAEContinSurf scene)"
    and r2: "is_rect (get_evaluation_mask C MAEPlanes scene)"
  shows "\<exists>mask t.
     mask_pixels mask = mask_pixels (get_evaluation_mask C MAEContinSurf scene) \<union>
                        mask_pixels (get_evaluation_mask C MAEPlanes scene) \<and>
     shape mask = shape (get_evaluation_mask C MAEContinSurf scene) \<and>
     succeeded (plot_normals_explanation C scene algorithm fs subdir) \<and>
     filter is_score_call
       (fst (plot_normals_explanation C scene algorithm fs subdir)) =
       [GetScoreFromMask MAEContinSurf r (get_gt scene) scene mask True] \<and>
     sublist [Subplot 2,
              Imshow (Gray (snd (get_score_from_mask C MAEContinSurf r (get_gt scene) scene mask True)))
                (MetricArgs MAEContinSurf),
              Title (''Median Angular Error: '' @
                     format_0_1f (fst (get_score_from_mask C MAEContinSurf r (get_gt scene) scene mask True)))
                fs]
       (fst (plot_normals_explanation C scene algorithm fs subdir)) \<and>
     format_0_1f (fst (get_score_from_mask C MAEContinSurf r (get_gt scene) scene mask True)) =
       (if fst (get_score_from_mask C MAEContinSurf r (get_gt scene) scene mask True) < 0
        then ''-'' else []) @ decimal (t div 10) @ [CHR ''.'', digit_char (t mod 10)] \<and>
     \<bar>real t / 10 - \<bar>fst (get_score_from_mask C MAEContinSurf r (get_gt scene) scene mask True)\<bar>\<bar>
       \<le> 1 / 20 \<and>
     set (decimal (t div 10)) \<subseteq> set ''0123456789'' \<and>
     digit_char (t mod 10) \<in> set ''0123456789''"
proof -
  from np_add_bool_union [OF sh r1 r2] obtain mask where
    m: "np_add_bool (get_evaluation_mask C MAEContinSurf scene)
          (get_evaluation_mask C MAEPlanes scene) = Inr mask"
    and s: "shape mask = shape (get_evaluation_mask C MAEContinSurf scene)"
    and u: "mask_pixels mask = mask_pixels (get_evaluation_mask C MAEContinSurf scene) \<union>
                        mask_pixels (get_evaluation_mask C MAEPlanes scene)"
    by blast
  let ?score = "fst (get_score_from_mask C MAEContinSurf r (get_gt scene) scene mask True)"
  from format_0_1f_shape [of ?score] obtain t where
    f: "format_0_1f ?score =
          (if ?score < 0 then ''-'' else []) @ decimal (t div 10) @ [CHR ''.'', digit_char (t mod 10)]"
      "\<bar>real t / 10 - \<bar>?score\<bar>\<bar> \<le> 1 / 20"
      "set (decimal (t div 10)) \<subseteq> set ''0123456789''"
      "digit_char (t mod 10) \<in> set ''0123456789''"
    by blast
  have run: "succeeded (plot_normals_explanation C scene algorithm fs subdir) \<and>
     filter is_score_call
       (fst (plot_normals_explanation C scene algorithm fs subdir)) =
       [GetScoreFromMask MAEContinSurf r (get_gt scene) scene mask True] \<and>
     sublist [Subplot 2,
              Imshow (Gray (snd (get_score_from_mask C MAEContinSurf r (get_gt scene) scene mask True)))
                (MetricArgs MAEContinSurf),
              Title (''Median Angular Error: '' @ format_0_1f ?score) fs]
       (fst (plot_normals_explanation C scene algorithm fs subdir))"
    by (simp add: plot_normals_explanation_def r m Let_def split_def succeeded_def
        sublist_Cons_right del: append.simps)
  show ?thesis
    using u s run f by blast
qed

theorem normals_mask_is_union_and_score_has_one_decimal_witness:
  "get_algo_result example_collab cotton epi1 = Inr [[101 / 100, 201 / 100], [301 / 100, 401 / 100]] \<and>
   shape (get_evaluation_mask example_collab MAEContinSurf cotton) =
     shape (get_evaluation_mask example_collab MAEPlanes cotton) \<and>
   is_rect (get_evaluation_mask example_collab MAEContinSurf cotton) \<and>
   is_rect (get_evaluation_mask example_collab MAEPlanes cotton) \<and>
   succeeded (plot_normals_explanation example_collab cotton epi1 14 ''overview'') \<and>
   list_ex (\<lambda>e. e = GetScoreFromMask MAEContinSurf [[101 / 100, 201 / 100], [301 / 100, 401 / 100]]
                       [[1, 2], [3, 4]] cotton [[True, False], [False, True]] True)
     (fst (plot_normals_explanation example_collab cotton epi1 14 ''overview'')) \<and>
   list_ex (\<lambda>e. e = Title ''Median Angular Error: 12.3'' 14)
     (fst (plot_normals_explanation example_collab cotton epi1 14 ''overview''))"
proof -
  have r: "get_algo_result example_collab cotton epi1 =
             Inr [[101 / 100, 201 / 100], [301 / 100, 401 / 100]]"
    by simp
  have sh: "shape (get_evaluation_mask example_collab MAEContinSurf cotton) =
            shape (get_evaluation_mask example_collab MAEPlanes cotton)"
    and r1: "is_rect (get_evaluation_mask example_collab MAEContinSurf cotton)"
    and r2: "is_rect (get_evaluation_mask example_collab MAEPlanes cotton)"
    by (simp_all add: shape_def is_rect_def)
  have e: "list_ex (\<lambda>e. e = GetScoreFromMask MAEContinSurf
                       [[101 / 100, 201 / 100], [301 / 100, 401 / 100]]
                       [[1, 2], [3, 4]] cotton [[True, False], [False, True]] True)
     (fst (plot_normals_explanation example_collab cotton epi1 14 ''overview''))"
    "list_ex (\<lambda>e. e = Title ''Median Angular Error: 12.3'' 14)
     (fst (plot_normals_explanation example_collab cotton epi1 14 ''overview''))"
    by code_simp+
  from normals_mask_is_union_and_score_has_one_decimal [OF r sh r1 r2, of 14 "''overview''"]
  have "succeeded (plot_normals_explanation example_collab cotton epi1 14 ''overview'')"
    by blast
  then show ?thesis using r sh r1 r2 e by blast
qed

subsection \<open>Figures opened and released\<close>

lemma ends_in_save_emit [simp]: "ends_in_save (emit (SaveTightFigure a b c d e f g))"
  by (simp add: ends_in_save_def)

lemma ends_in_save_bind:
  assumes "list_all quiet (fst m)" "\<And>x. ends_in_save (f x)"
  shows "ends_in_save (bind m f)"
proof (cases m)
  case (Pair t r)
  show ?thesis
  proof (cases r)
    case (Inl e)
    then show ?thesis using assms(1) Pair by (simp add: ends_in_save_def)
  next
    case (Inr x)
    show ?thesis
    proof (cases "snd (f x)")
      case (Inl e)
      then show ?thesis using assms(1) assms(2) [of x] Pair Inr
        by (simp add: ends_in_save_def)
    next
      case (Inr y)
      then obtain mid sv where "fst (f x) = mid @ [sv]" "list_all quiet mid" "is_save sv"
        using assms(2) [of x] by (auto simp: ends_in_save_def)
      then show ?thesis using assms(1) Pair \<open>r = Inr x\<close> Inr
        by (auto simp: ends_in_save_def intro!: exI [of _ "t @ mid"])
    qed
  qed
qed

lemma ends_in_save_then_ret:
  assumes "ends_in_save m"
  shows "ends_in_save (bind m (\<lambda>_. ret y))"
  using assms by (cases m; cases "snd m") (auto simp: ends_in_save_def)

lemma ends_in_save_seq:
  assumes "list_all quiet (fst m)" "ends_in_save (seq ms)"
  shows "ends_in_save (seq (m # ms))"
  using assms by (auto intro: ends_in_save_bind)

lemma ends_in_save_seq_last:
  "ends_in_save (seq [emit (SaveTightFigure a b c d e f g)])"
  by (simp add: ends_in_save_def)

lemma ends_in_save_Cons:
  assumes "quiet e" "ends_in_save (t, r)"
  shows "ends_in_save (e # t, r)"
proof (cases r)
  case (Inl x)
  then show ?thesis using assms by (simp add: ends_in_save_def)
next
  case (Inr y)
  then obtain mid sv where "t = mid @ [sv]" "list_all quiet mid" "is_save sv"
    using assms(2) by (auto simp: ends_in_save_def)
  then show ?thesis using assms(1) Inr
    by (auto simp: ends_in_save_def intro!: exI [of _ "e # mid"])
qed

lemma released_after_figure:
  assumes "ends_in_save m"
  shows "released_on_return_only (bind (emit (Figure a b)) (\<lambda>_. m))"
proof (cases "snd m")
  case (Inl e)
  then have q: "list_all quiet (fst m)" using assms by (simp add: ends_in_save_def)
  have "open_after (Suc 0) (fst m) = Suc 0"
    using open_after_quiet [OF q, of "Suc 0" "[]"] by simp
  then show ?thesis using Inl q filter_quiet [OF q]
    by (simp add: released_on_return_only_def succeeded_def figures_left_open_def list_ex_iff list_all_iff quiet_def)
next
  case (Inr x)
  then obtain mid sv where t: "fst m = mid @ [sv]" and q: "list_all quiet mid" and s: "is_save sv"
    using assms by (auto simp: ends_in_save_def)
  have "\<not> is_figure sv" using s by (cases sv) simp_all
  then show ?thesis using Inr t s filter_quiet [OF q] open_after_quiet [OF q, of "Suc 0" "[sv]"]
    by (simp add: released_on_return_only_def succeeded_def figures_left_open_def)
qed

lemma released_failed_early: "released_on_return_only ([], Inl e)"
  by (simp add: released_on_return_only_def succeeded_def figures_left_open_def)

lemma scene_overview_released: "released_on_return_only (plot_scene_overview C g scenes subdir fs)"
  unfolding plot_scene_overview_def Let_def
  by (intro released_after_figure ends_in_save_bind ends_in_save_then_ret ends_in_save_seq
      ends_in_save_seq_last fst_for_loop_all scene_overview_body_quiet)
     (simp_all add: quiet_def)

lemma normals_released: "released_on_return_only (plot_normals_explanation C scene algorithm fs subdir)"
proof (cases "get_algo_result C scene algorithm")
  case (Inl e)
  then show ?thesis
    by (simp add: plot_normals_explanation_def released_on_return_only_def succeeded_def figures_left_open_def
        split: prod.splits)
next
  case r: (Inr r)
  show ?thesis
  proof (cases "np_add_bool (get_evaluation_mask C MAEContinSurf scene)
                  (get_evaluation_mask C MAEPlanes scene)")
    case (Inl e)
    then show ?thesis using r
      by (simp add: plot_normals_explanation_def released_on_return_only_def succeeded_def
          figures_left_open_def split: prod.splits)
  next
    case (Inr mask)
    then show ?thesis using r
      by (simp add: plot_normals_explanation_def released_on_return_only_def succeeded_def
          figures_left_open_def Let_def split_def)
  qed
qed

lemma discont_released:
  "released_on_return_only (plot_discont_overview C algorithms scene n_rows fs subdir xmin ymin ww)"
proof (cases "n_rows = 0")
  case True
  then show ?thesis
    by (simp add: plot_discont_overview_def py_truediv_def released_failed_early)
next
  case False
  have "released_on_return_only (bind (emit (Figure a b)) (\<lambda>_.
          bind (emit (PrepareGridWithColorbar rows cols scene)) (\<lambda>_.
          bind (lift (get_algo_result C scene (PerPixMedianDiff C))) (\<lambda>median_result.
          bind (seq [
            emit (Subplot 0),
            emit (Imshow (Colour (slice2 (get_center_view scene) ymin (ymin + ww) xmin (xmin + ww))) NoArgs),
            emit (Title ''Center View'' fs),
            emit (Ylabel ''DispMap'' (Some fs)),
            emit (Subplot cols),
            emit (Ylabel ''MedianDiff'' (Some fs))]) (\<lambda>_.
          bind (for_loop (discont_body C scene 2 E cols fs h w median_result xmin ymin ww)
                 (py_enumerate algorithms) ()) (\<lambda>_.
          emit (SaveTightFigure nm subdir True True (3 / 100) (3 / 100) (Some 100))))))))"
    for a b rows cols E h w nm
    by (intro released_after_figure ends_in_save_bind fst_seq_all fst_for_loop_all discont_body_quiet
        ends_in_save_emit)
       (auto simp: quiet_def)
  then show ?thesis using False
    by (simp add: plot_discont_overview_def Let_def py_truediv_def split: prod.splits
        del: bind_emit bind_ret bind_lift_Inl bind_pair_Inl bind_pair_Inr seq.simps)
qed

lemma median_released:
  "released_on_return_only (plot_median_comparisons C scenes algorithms subdir with_gt_row fs)"
proof -
  have "released_on_return_only (bind (emit (Figure a b)) (\<lambda>_.
          bind (lift (py_index scenes 0)) (\<lambda>scene0.
          bind (emit (PrepareGridWithColorbar rows cols scene0)) (\<lambda>_.
          bind (for_loop (median_scene_body C algorithms cols n with_gt_row fs (h scene0) (w scene0))
                  (py_enumerate scenes) \<lparr>idx_a = None, scene_var = None\<rparr>) (\<lambda>L.
          bind (lift (py_local (scene_var L))) (\<lambda>scene.
          emit (SaveTightFigure (''median_comparison_'' @ get_category scene) subdir True True
                  (2 / 100) 0 None)))))))"
    for a b rows cols n h w
    by (intro released_after_figure ends_in_save_bind fst_for_loop_all median_scene_body_quiet
        ends_in_save_emit)
       (auto simp: quiet_def)
  from this [of _ _ _ _ _ "\<lambda>s. fst (colorbar_size C (int (length algorithms) + (if with_gt_row then 1 else 0)) (int (length scenes) * 3 + 1) s) * (8 / 10)"
      "\<lambda>s. snd (colorbar_size C (int (length algorithms) + (if with_gt_row then 1 else 0)) (int (length scenes) * 3 + 1) s)"]
  show ?thesis
    by (simp add: plot_median_comparisons_def Let_def split_def
        del: bind_emit bind_ret bind_lift_Inl bind_pair_Inl bind_pair_Inr seq.simps)
qed

text \<open>
  C9, as amended: each of the four operations that open a figure themselves hands it
  to \<open>plotting.save_tight_figure\<close> as the last call of a run that returns, and nowhere
  else. There is no release on a failure: a run that raises after \<open>plt.figure\<close> ends
  with that figure open and nothing saved.
\<close>

theorem figures_released_on_return_only:
  "released_on_return_only (plot_scene_overview C g scenes subdir fs) \<and>
   released_on_return_only (plot_normals_explanation C scene algorithm fs subdir) \<and>
   released_on_return_only
     (plot_discont_overview C algorithms scene n_rows fs subdir xmin ymin ww) \<and>
   released_on_return_only (plot_median_comparisons C scenes algorithms subdir with_gt_row fs)"
  by (intro conjI scene_overview_released normals_released discont_released median_released)

theorem figures_released_on_return_only_witness:
  "succeeded (plot_median_comparisons example_collab [cotton] [epi1] ''figs'' True 12) \<and>
   figures_left_open
     (fst (plot_median_comparisons example_collab [cotton] [epi1] ''figs'' True 12)) = 0 \<and>
   \<not> succeeded (plot_normals_explanation example_collab cotton no_result 12 ''figs'') \<and>
   figures_left_open
     (fst (plot_normals_explanation example_collab cotton no_result 12 ''figs'')) = 1"
proof -
  have a: "succeeded (plot_median_comparisons example_collab [cotton] [epi1] ''figs'' True 12)"
    by code_simp
  have b: "plot_normals_explanation example_collab cotton no_result 12 ''figs'' =
           ([Figure 10 4, PrepareGridWithColorbar 1 4 cotton], Inl (Raised ''no result''))"
    by (simp add: plot_normals_explanation_def)
  show ?thesis
    using a b
      figures_released_on_return_only [of example_collab "[]" "[cotton]" "''figs''" 12
        cotton no_result "[epi1]" 1 0 0 1 True]
    by (simp add: released_on_return_only_def succeeded_def Let_def)
qed

text \<open>
  The claim as stated fails: when \<open>misc.get_algo_result\<close> raises for the first
  algorithm, \<open>plot_median_comparisons\<close> ends with the exception, its figure open.
\<close>

theorem figure_left_open_on_failure:
  "plot_median_comparisons example_collab [cotton] [no_result] ''figs'' True 12 =
     ([Figure (52 / 10) 3, PrepareGridWithColorbar 2 4 cotton], Inl (Raised ''no result'')) \<and>
   figures_left_open [Figure (52 / 10) 3, PrepareGridWithColorbar 2 4 cotton] = 1"
  by (simp add: plot_median_comparisons_def py_index_def py_enumerate_def
      median_scene_body_def median_algo_body_def figures_left_open_def)

end
